theory Spec2Isabelle
  imports Main
begin

section \<open>JavaScript values\<close>

text \<open>
  A JavaScript string is a sequence of UTF-16 code units; \<open>length\<close>, \<open>slice\<close>, \<open>trim\<close> and
  \<open>includes\<close> all work on code units. A code unit is modelled as a natural number, and
  \<open>lit\<close> turns an ASCII literal of the source into such a string.
\<close>

type_synonym jsstring = "nat list"

definition lit :: "string \<Rightarrow> jsstring" where
  "lit s = map of_char s"

text \<open>\<open>String.prototype.includes\<close>: the needle occurs as a contiguous substring.\<close>

fun js_includes :: "jsstring \<Rightarrow> jsstring \<Rightarrow> bool" where
  "js_includes [] sub = (sub = [])"
| "js_includes (c # cs) sub = (take (length sub) (c # cs) = sub \<or> js_includes cs sub)"

text \<open>White space and line terminators removed by \<open>String.prototype.trim\<close>.\<close>

definition js_space :: "nat \<Rightarrow> bool" where
  "js_space c \<longleftrightarrow>
     (9 \<le> c \<and> c \<le> 13) \<or> c = 32 \<or> c = 160 \<or> c = 5760
     \<or> (8192 \<le> c \<and> c \<le> 8202) \<or> c = 8232 \<or> c = 8233 \<or> c = 8239
     \<or> c = 8287 \<or> c = 12288 \<or> c = 65279"

definition js_trim :: "jsstring \<Rightarrow> jsstring" where
  "js_trim s = rev (dropWhile js_space (rev (dropWhile js_space s)))"

text \<open>\<open>Array.prototype.join\<close> on strings.\<close>

fun js_join :: "jsstring \<Rightarrow> jsstring list \<Rightarrow> jsstring" where
  "js_join sep [] = []"
| "js_join sep [x] = x"
| "js_join sep (x # y # ys) = x @ sep @ js_join sep (y # ys)"

text \<open>Decimal digits of a natural number, as \<open>String(n)\<close> prints an integer.\<close>

function digits :: "nat \<Rightarrow> jsstring" where
  "digits n = (if n < 10 then [48 + n] else digits (n div 10) @ [48 + n mod 10])"
  by pat_completeness auto
termination
  by (relation "measure id") auto

declare digits.simps [simp del]

definition int_String :: "int \<Rightarrow> jsstring" where
  "int_String i = (if i < 0 then 45 # digits (nat (- i)) else digits (nat i))"

text \<open>
  The values \<open>JSON.parse\<close> produces. A number is followed only when it is an integer.
  An object is the list of its properties, each key once; a property is read with \<open>map_of\<close>.
  \<open>undefined\<close> is \<open>None\<close> of \<open>json option\<close>.
\<close>

datatype json =
    JNull
  | JBool bool
  | JNum int
  | JStr jsstring
  | JArr "json list"
  | JObj "(jsstring \<times> json) list"

text \<open>
  \<open>String(v)\<close>, the conversion a template literal applies, for the values the model
  follows: an integer is printed in decimal (as the script does below \<open>1e21\<close>), and an
  object prints as \<open>[object Object]\<close> (an object whose own \<open>toString\<close> property is not a
  function makes the conversion throw, which the model does not follow).
\<close>

fun js_String :: "json \<Rightarrow> jsstring" where
  "js_String JNull = lit ''null''"
| "js_String (JBool b) = (if b then lit ''true'' else lit ''false'')"
| "js_String (JNum n) = int_String n"
| "js_String (JStr s) = s"
| "js_String (JArr xs) =
     js_join (lit '','') (map (\<lambda>x. if x = JNull then [] else js_String x) xs)"
| "js_String (JObj kvs) = lit ''[object Object]''"

text \<open>Truthiness of a value that may be \<open>undefined\<close>.\<close>

fun truthy :: "json option \<Rightarrow> bool" where
  "truthy None = False"
| "truthy (Some JNull) = False"
| "truthy (Some (JBool b)) = b"
| "truthy (Some (JNum n)) = (n \<noteq> 0)"
| "truthy (Some (JStr s)) = (s \<noteq> [])"
| "truthy (Some (JArr xs)) = True"
| "truthy (Some (JObj kvs)) = True"

text \<open>\<open>a ?? b\<close>: the right operand when the left is \<open>null\<close> or \<open>undefined\<close>.\<close>

fun nullish :: "json option \<Rightarrow> bool" where
  "nullish None = True"
| "nullish (Some JNull) = True"
| "nullish (Some v) = False"

definition coalesce :: "json option \<Rightarrow> json option \<Rightarrow> json option" where
  "coalesce a b = (if nullish a then b else a)"

text \<open>
  \<open>obj?.key\<close>: \<open>undefined\<close> on \<open>null\<close> and \<open>undefined\<close>, the property of an object, and
  \<open>undefined\<close> on every other value (none of the keys the program reads is a built-in
  property of a string, number, boolean or array).
\<close>

fun opt_get :: "json option \<Rightarrow> jsstring \<Rightarrow> json option" where
  "opt_get (Some (JObj kvs)) k = map_of kvs k"
| "opt_get v k = None"


section \<open>The environment of the script\<close>

text \<open>
  Everything thrown is an \<open>Error\<close> object with a string message. The constructor records
  where the error was made: by \<open>getToken\<close> or the identity library (\<open>AuthError\<close>), by
  \<open>fetchWithRetry\<close> for a status that is not a success (\<open>HttpError\<close>), by \<open>safeJson\<close> for a
  body that does not parse (\<open>DecodeError\<close>), by \<open>fetch\<close> or \<open>res.text()\<close> rejecting
  (\<open>NetworkError\<close>), by \<open>encodeURIComponent\<close> (\<open>URIError\<close>), by \<open>res.json()\<close> for a body that
  does not parse (\<open>SyntaxError\<close>), by reading a property of \<open>null\<close> (\<open>TypeError\<close>).
\<close>

datatype error =
    AuthError jsstring
  | HttpError jsstring
  | DecodeError jsstring
  | NetworkError jsstring
  | URIError jsstring
  | SyntaxError jsstring
  | TypeError jsstring

fun message :: "error \<Rightarrow> jsstring" where
  "message (AuthError m) = m"
| "message (HttpError m) = m"
| "message (DecodeError m) = m"
| "message (NetworkError m) = m"
| "message (URIError m) = m"
| "message (SyntaxError m) = m"
| "message (TypeError m) = m"

text \<open>
  A \<open>Response\<close> of \<open>fetch\<close>: \<open>headers\<close> is keyed by the lower-case header name, as
  \<open>headers.get\<close> is called; \<open>res_text\<close> is what \<open>res.text()\<close> resolves to, or the message it
  rejects with.
\<close>

record response =
  status :: nat
  statusText :: jsstring
  headers :: "(jsstring \<times> jsstring) list"
  res_text :: "jsstring + jsstring"

definition ok :: "response \<Rightarrow> bool" where
  "ok res \<longleftrightarrow> 200 \<le> status res \<and> status res \<le> 299"

definition headers_get :: "response \<Rightarrow> jsstring \<Rightarrow> jsstring option" where
  "headers_get res name = map_of (headers res) name"

text \<open>
  What the script does not define is a parameter: the identity library, the clock, the
  network, the built-in functions \<open>JSON.parse\<close>, \<open>encodeURIComponent\<close> and \<open>Number\<close>, and the
  process environment. \<open>acquireTokenByClientCredential n\<close> is the outcome of the \<open>n\<close>-th call
  of the identity library: it rejects with a message, or resolves to a result whose
  \<open>accessToken\<close> may be missing. \<open>fetch_at n url options\<close> is the outcome of the \<open>n\<close>-th call
  of \<open>fetch\<close>. \<open>JSON_parse\<close> gives the message of the \<open>SyntaxError\<close> where \<open>JSON.parse\<close>
  throws, \<open>encodeURIComponent\<close> gives \<open>None\<close> where the built-in throws; \<open>Number\<close> gives the
  integer a string converts to, and \<open>None\<close> for \<open>NaN\<close> and for a value that is not an
  integer, which the model does not follow.
\<close>

record env =
  acquireTokenByClientCredential :: "nat \<Rightarrow> jsstring + jsstring option"
  Date_now_at :: "nat \<Rightarrow> int"
  fetch_at :: "nat \<Rightarrow> jsstring \<Rightarrow> (jsstring \<times> jsstring) list \<Rightarrow> jsstring + response"
  JSON_parse :: "jsstring \<Rightarrow> jsstring + json"
  encodeURIComponent :: "jsstring \<Rightarrow> jsstring option"
  Number :: "jsstring \<Rightarrow> int option"
  RTA_MEETING_ID :: jsstring
  POLL_MS :: jsstring
  VERBOSE :: jsstring

text \<open>What the script does to the outside, in order.\<close>

datatype event =
    EvAcquire
  | EvFetch jsstring "(jsstring \<times> jsstring) list"
  | EvSleep "int option"
  | EvLog jsstring
  | EvWarn jsstring
  | EvDir json
  | EvError error
  | EvExit nat

text \<open>The state threaded through the script: how often each outside call was made, and the trace.\<close>

record st =
  n_acquire :: nat
  n_now :: nat
  n_fetch :: nat
  trace :: "event list"

definition emit :: "event \<Rightarrow> st \<Rightarrow> st" where
  "emit e s = s\<lparr>trace := trace s @ [e]\<rparr>"

definition console_log :: "jsstring \<Rightarrow> st \<Rightarrow> st" where
  "console_log m s = emit (EvLog m) s"

definition console_warn :: "jsstring \<Rightarrow> st \<Rightarrow> st" where
  "console_warn m s = emit (EvWarn m) s"

definition console_dir :: "json \<Rightarrow> st \<Rightarrow> st" where
  "console_dir v s = emit (EvDir v) s"

definition sleep :: "int option \<Rightarrow> st \<Rightarrow> st" where
  "sleep ms s = emit (EvSleep ms) s"

definition Date_now :: "env \<Rightarrow> st \<Rightarrow> int \<times> st" where
  "Date_now E s = (Date_now_at E (n_now s), s\<lparr>n_now := n_now s + 1\<rparr>)"

definition fetch :: "env \<Rightarrow> jsstring \<Rightarrow> (jsstring \<times> jsstring) list \<Rightarrow> st \<Rightarrow> (error + response) \<times> st" where
  "fetch E url options s =
     (let s' = emit (EvFetch url options) (s\<lparr>n_fetch := n_fetch s + 1\<rparr>)
      in case fetch_at E (n_fetch s) url options of
           Inl m \<Rightarrow> (Inl (NetworkError m), s')
         | Inr res \<Rightarrow> (Inr res, s'))"

section \<open>Auth\<close>

text \<open>\<open>getToken\<close>: a rejection of the library propagates; a result without a truthy
  \<open>accessToken\<close> throws \<open>Failed to get app token\<close>.\<close>

definition getToken :: "env \<Rightarrow> st \<Rightarrow> (error + jsstring) \<times> st" where
  "getToken E s =
     (let s' = emit EvAcquire (s\<lparr>n_acquire := n_acquire s + 1\<rparr>)
      in case acquireTokenByClientCredential E (n_acquire s) of
           Inl m \<Rightarrow> (Inl (AuthError m), s')
         | Inr r \<Rightarrow>
             (case r of
                None \<Rightarrow> (Inl (AuthError (lit ''Failed to get app token'')), s')
              | Some accessToken \<Rightarrow>
                  if accessToken = [] then (Inl (AuthError (lit ''Failed to get app token'')), s')
                  else (Inr accessToken, s')))"

section \<open>Helpers\<close>

definition base :: jsstring where
  "base = lit ''https://graph.microsoft.com/beta''"

definition transcriptsListUrl :: "env \<Rightarrow> jsstring \<Rightarrow> error + jsstring" where
  "transcriptsListUrl E meetingId =
     (case encodeURIComponent E meetingId of
        None \<Rightarrow> Inl (URIError (lit ''URI malformed''))
      | Some m \<Rightarrow>
          Inr (base @ lit ''/copilot/communications/realtimeActivityFeed/meetings/'' @ m
               @ lit ''/transcripts''))"

definition transcriptDetailUrl :: "env \<Rightarrow> jsstring \<Rightarrow> jsstring \<Rightarrow> error + jsstring" where
  "transcriptDetailUrl E meetingId transcriptId =
     (case encodeURIComponent E meetingId of
        None \<Rightarrow> Inl (URIError (lit ''URI malformed''))
      | Some m \<Rightarrow>
          (case encodeURIComponent E transcriptId of
             None \<Rightarrow> Inl (URIError (lit ''URI malformed''))
           | Some t \<Rightarrow>
               Inr (base @ lit ''/copilot/communications/realtimeActivityFeed/meetings/'' @ m
                    @ lit ''/transcripts/'' @ t)))"

text \<open>How a template literal prints a number that may be \<open>NaN\<close>.\<close>

definition num_String :: "int option \<Rightarrow> jsstring" where
  "num_String n = (case n of None \<Rightarrow> lit ''NaN'' | Some i \<Rightarrow> int_String i)"

text \<open>The message of the error \<open>fetchWithRetry\<close> throws for a response it gives up on.\<close>

definition http_error_message :: "response \<Rightarrow> jsstring" where
  "http_error_message res =
     (let errText = (case res_text res of Inl _ \<Rightarrow> [] | Inr t \<Rightarrow> t)
      in lit ''HTTP '' @ digits (status res) @ lit '' '' @ statusText res @ [10] @ errText)"

text \<open>
  The wait before a retry: the \<open>Retry-After\<close> header times 1000 when the header is a
  non-empty string, else \<open>min(32000, 1000 * 2 ** attempt)\<close>.
\<close>

definition retry_wait :: "env \<Rightarrow> response \<Rightarrow> nat \<Rightarrow> int option" where
  "retry_wait E res attempt =
     (case headers_get res (lit ''retry-after'') of
        None \<Rightarrow> Some (min 32000 (1000 * 2 ^ attempt))
      | Some ra \<Rightarrow>
          if ra \<noteq> [] then map_option (\<lambda>n. n * 1000) (Number E ra)
          else Some (min 32000 (1000 * 2 ^ attempt)))"

text \<open>
  \<open>fetchWithRetry\<close>: the loop \<open>while (true)\<close> with the counter \<open>attempt\<close>; the argument
  \<open>attempt\<close> is the counter's value when the loop body begins.
\<close>

function fetchWithRetry_loop ::
  "env \<Rightarrow> jsstring \<Rightarrow> (jsstring \<times> jsstring) list \<Rightarrow> nat \<Rightarrow> nat \<Rightarrow> st \<Rightarrow> (error + response) \<times> st"
where
  "fetchWithRetry_loop E url options maxAttempts attempt0 s =
     (let attempt = attempt0 + 1 in
      case fetch E url options s of
        (Inl e, s1) \<Rightarrow> (Inl e, s1)
      | (Inr res, s1) \<Rightarrow>
          if \<not> ok res then
            if (status res = 429 \<or> status res = 503) \<and> attempt < maxAttempts then
              let wait = retry_wait E res attempt;
                  s2 = console_warn (lit ''['' @ digits (status res) @ lit ''] throttled; retrying in ''
                                     @ num_String wait @ lit ''ms...'') s1;
                  s3 = sleep wait s2
              in fetchWithRetry_loop E url options maxAttempts attempt s3
            else (Inl (HttpError (http_error_message res)), s1)
          else (Inr res, s1))"
  by pat_completeness auto
termination
  by (relation "measure (\<lambda>(E, url, options, maxAttempts, attempt0, s). maxAttempts - attempt0)") auto

declare fetchWithRetry_loop.simps [simp del]

definition fetchWithRetry ::
  "env \<Rightarrow> jsstring \<Rightarrow> (jsstring \<times> jsstring) list \<Rightarrow> nat \<Rightarrow> st \<Rightarrow> (error + response) \<times> st"
where
  "fetchWithRetry E url options maxAttempts s = fetchWithRetry_loop E url options maxAttempts 0 s"

text \<open>
  \<open>safeJson\<close>: the object \<open>{ _empty: true, _status }\<close> for status 204 or 202 and for an
  empty or blank body, \<open>{ _raw: text, _status }\<close> when the content type does not include
  \<open>application/json\<close>, else the parsed body, or an error whose message carries at most the
  first 800 code units of the body and an ellipsis.
\<close>

definition empty_body :: "nat \<Rightarrow> json" where
  "empty_body st = JObj [(lit ''_empty'', JBool True), (lit ''_status'', JNum (int st))]"

definition raw_body :: "jsstring \<Rightarrow> nat \<Rightarrow> json" where
  "raw_body txt st = JObj [(lit ''_raw'', JStr txt), (lit ''_status'', JNum (int st))]"

definition safeJson :: "env \<Rightarrow> response \<Rightarrow> error + json" where
  "safeJson E res =
     (if status res = 204 \<or> status res = 202 then Inr (empty_body (status res))
      else case res_text res of
        Inl m \<Rightarrow> Inl (NetworkError m)
      | Inr txt \<Rightarrow>
          if txt = [] \<or> js_trim txt = [] then Inr (empty_body (status res))
          else
            let ct = (case headers_get res (lit ''content-type'') of
                        None \<Rightarrow> []
                      | Some c \<Rightarrow> if c \<noteq> [] then c else [])
            in if \<not> js_includes ct (lit ''application/json'') then Inr (raw_body txt (status res))
               else case JSON_parse E txt of
                 Inr v \<Rightarrow> Inr v
               | Inl _ \<Rightarrow>
                   let snippet = (if length txt > 800 then take 800 txt @ [8230] else txt)
                   in Inl (DecodeError (lit ''Failed to parse JSON (status '' @ digits (status res)
                                        @ lit ''). Body starts with:'' @ [10] @ snippet)))"

definition request_options :: "jsstring \<Rightarrow> (jsstring \<times> jsstring) list" where
  "request_options accessToken =
     [(lit ''Authorization'', lit ''Bearer '' @ accessToken),
      (lit ''Accept'', lit ''application/json'')]"

definition listTranscripts :: "env \<Rightarrow> jsstring \<Rightarrow> jsstring \<Rightarrow> st \<Rightarrow> (error + json) \<times> st" where
  "listTranscripts E accessToken meetingId s =
     (case transcriptsListUrl E meetingId of
        Inl e \<Rightarrow> (Inl e, s)
      | Inr url \<Rightarrow>
          (case fetchWithRetry E url (request_options accessToken) 5 s of
             (Inl e, s1) \<Rightarrow> (Inl e, s1)
           | (Inr res, s1) \<Rightarrow>
               let s2 = (if VERBOSE E = lit ''1''
                         then console_log (lit ''[list] HTTP '' @ digits (status res) @ lit '' ''
                                           @ statusText res) s1
                         else s1)
               in (safeJson E res, s2)))"

text \<open>\<open>transcriptId\<close> is the value read from the list item; the template literal and
  \<open>encodeURIComponent\<close> convert it to a string.\<close>

definition getTranscript :: "env \<Rightarrow> jsstring \<Rightarrow> jsstring \<Rightarrow> json \<Rightarrow> st \<Rightarrow> (error + json) \<times> st" where
  "getTranscript E accessToken meetingId transcriptId s =
     (case transcriptDetailUrl E meetingId (js_String transcriptId) of
        Inl e \<Rightarrow> (Inl e, s)
      | Inr url \<Rightarrow>
          (case fetchWithRetry E url (request_options accessToken) 5 s of
             (Inl e, s1) \<Rightarrow> (Inl e, s1)
           | (Inr res, s1) \<Rightarrow>
               let s2 = (if VERBOSE E = lit ''1''
                         then console_log (lit ''[detail:'' @ js_String transcriptId @ lit ''] HTTP ''
                                           @ digits (status res) @ lit '' '' @ statusText res) s1
                         else s1)
               in (safeJson E res, s2)))"

section \<open>The pretty printer\<close>

text \<open>A template literal's conversion of a value that may be \<open>undefined\<close>.\<close>

definition tpl :: "json option \<Rightarrow> jsstring" where
  "tpl v = (case v of None \<Rightarrow> lit ''undefined'' | Some j \<Rightarrow> js_String j)"

text \<open>The five constants \<open>prettyPrintTranscript\<close> computes, each a chain of \<open>??\<close>.\<close>

definition pp_id :: "json \<Rightarrow> json option" where
  "pp_id obj =
     coalesce (coalesce (coalesce (opt_get (Some obj) (lit ''id''))
                                  (opt_get (Some obj) (lit ''transcriptId'')))
                        (opt_get (opt_get (Some obj) (lit ''metadata'')) (lit ''id'')))
              (Some (JStr (lit ''unknown'')))"

definition pp_created :: "json \<Rightarrow> json option" where
  "pp_created obj =
     coalesce (coalesce (coalesce (opt_get (Some obj) (lit ''createdDateTime''))
                                  (opt_get (Some obj) (lit ''startDateTime'')))
                        (opt_get (Some obj) (lit ''timestamp'')))
              (opt_get (opt_get (Some obj) (lit ''metadata'')) (lit ''createdDateTime''))"

definition pp_lang :: "json \<Rightarrow> json option" where
  "pp_lang obj =
     coalesce (coalesce (opt_get (Some obj) (lit ''language''))
                        (opt_get (Some obj) (lit ''locale'')))
              (opt_get (opt_get (Some obj) (lit ''metadata'')) (lit ''language''))"

definition pp_speaker :: "json \<Rightarrow> json option" where
  "pp_speaker obj =
     coalesce (coalesce (opt_get (Some obj) (lit ''speakerId''))
                        (opt_get (opt_get (Some obj) (lit ''speaker'')) (lit ''id'')))
              (opt_get (Some obj) (lit ''participantId''))"

definition pp_text :: "json \<Rightarrow> json option" where
  "pp_text obj =
     coalesce (coalesce (coalesce (opt_get (Some obj) (lit ''text''))
                                  (opt_get (Some obj) (lit ''content'')))
                        (opt_get (Some obj) (lit ''combinedText'')))
              (case opt_get (Some obj) (lit ''alternatives'') of
                 Some (JArr alts) \<Rightarrow>
                   (case alts of [] \<Rightarrow> None | a # _ \<Rightarrow> opt_get (Some a) (lit ''text''))
               | _ \<Rightarrow> None)"

text \<open>The header: the parts that are not \<open>null\<close>, joined by \<open>' | '\<close>. The bullet is U+2022.\<close>

definition pp_header :: "json \<Rightarrow> jsstring" where
  "pp_header obj =
     js_join (lit '' | '')
       (List.map_filter (\<lambda>p. p)
          [Some ([8226] @ lit '' id: '' @ tpl (pp_id obj)),
           if truthy (pp_created obj) then Some (lit ''created: '' @ tpl (pp_created obj)) else None,
           if truthy (pp_lang obj) then Some (lit ''lang: '' @ tpl (pp_lang obj)) else None,
           if truthy (pp_speaker obj) then Some (lit ''speaker: '' @ tpl (pp_speaker obj)) else None])"

definition prettyPrintTranscript :: "json \<Rightarrow> st \<Rightarrow> st" where
  "prettyPrintTranscript obj s =
     (let header = pp_header obj;
          s1 = console_log (if header \<noteq> [] then header
                            else [8226] @ lit '' id: '' @ tpl (pp_id obj)) s
      in if truthy (pp_text obj) then console_log (lit ''  '' @ tpl (pp_text obj)) s1 else s1)"

section \<open>The poller\<close>

text \<open>The variables of \<open>run\<close>: \<open>token\<close>, \<open>tokenAcquiredAt\<close> and the set \<open>seen\<close>, in insertion order.\<close>

record poller =
  token :: jsstring
  tokenAcquiredAt :: int
  seen :: "json list"

text \<open>
  \<open>Set.prototype.has\<close> compares strings, numbers and booleans by value, and arrays and
  objects by reference. Every array or object the script meets was built by one call of
  \<open>JSON.parse\<close>, which shares nothing, so such a value is never found in the set.
\<close>

fun is_primitive :: "json \<Rightarrow> bool" where
  "is_primitive (JArr xs) = False"
| "is_primitive (JObj kvs) = False"
| "is_primitive v = True"

definition seen_has :: "json list \<Rightarrow> json \<Rightarrow> bool" where
  "seen_has sn v \<longleftrightarrow> is_primitive v \<and> v \<in> set sn"

definition seen_add :: "json list \<Rightarrow> json \<Rightarrow> json list" where
  "seen_add sn v = (if seen_has sn v then sn else sn @ [v])"

text \<open>The identifier of a list item: \<open>t?.id ?? t?.transcriptId ?? t?.metadata?.id\<close>.\<close>

definition item_id :: "json \<Rightarrow> json option" where
  "item_id t =
     coalesce (coalesce (opt_get (Some t) (lit ''id'')) (opt_get (Some t) (lit ''transcriptId'')))
              (opt_get (opt_get (Some t) (lit ''metadata'')) (lit ''id''))"

text \<open>
  What the loop does with the detail of the fragment \<open>id\<close> once it is fetched: nothing
  but a line in verbose mode for the empty marker, the first 400 code units for the raw
  marker, and else the payload in verbose mode and the summary.
\<close>

definition print_detail :: "env \<Rightarrow> json \<Rightarrow> json \<Rightarrow> st \<Rightarrow> st" where
  "print_detail E i detail s =
     (if truthy (opt_get (Some detail) (lit ''_empty'')) then
        (if VERBOSE E = lit ''1''
         then console_log (lit ''[detail:'' @ js_String i @ lit ''] Empty body.'') s
         else s)
      else if truthy (opt_get (Some detail) (lit ''_raw'')) then
        console_log (take 400 (tpl (opt_get (Some detail) (lit ''_raw''))))
          (console_log (lit ''[detail:'' @ js_String i
                        @ lit ''] Non-JSON body (first 400 chars):'') s)
      else
        prettyPrintTranscript detail
          (console_log (lit ''Detail snippet:'')
             (if VERBOSE E = lit ''1''
              then console_dir detail (console_log (lit ''~ detail payload ~'') s)
              else s)))"

text \<open>
  The loop \<open>for (const t of items)\<close> of \<open>run\<close>. The result is the error thrown, if any, with
  the variables and the state at that moment.
\<close>

fun process_items :: "env \<Rightarrow> json list \<Rightarrow> poller \<Rightarrow> st \<Rightarrow> error option \<times> poller \<times> st" where
  "process_items E [] P s = (None, P, s)"
| "process_items E (t # ts) P s =
     (case item_id t of
        None \<Rightarrow> process_items E ts P s
      | Some i \<Rightarrow>
          if \<not> truthy (Some i) \<or> seen_has (seen P) i then process_items E ts P s
          else
            let P1 = P\<lparr>seen := seen_add (seen P) i\<rparr>;
                s1 = console_log ([10] @ lit ''NEW transcript fragment:'') s;
                s2 = prettyPrintTranscript t s1
            in case getTranscript E (token P1) (RTA_MEETING_ID E) i s2 of
                 (Inl e, s3) \<Rightarrow> (Some e, P1, s3)
               | (Inr detail, s3) \<Rightarrow> process_items E ts P1 (print_detail E i detail s3))"

text \<open>The constant \<open>items\<close>: \<open>list.value\<close> when that is an array, else \<open>list\<close> itself when it is
  an array, else the empty array.\<close>

definition list_items :: "json \<Rightarrow> json list" where
  "list_items lst =
     (case opt_get (Some lst) (lit ''value'') of
        Some (JArr xs) \<Rightarrow> xs
      | _ \<Rightarrow> (case lst of JArr xs \<Rightarrow> xs | _ \<Rightarrow> []))"

text \<open>How the \<open>try\<close> block of one pass ends: at its end, by \<open>continue\<close>, or by a throw.\<close>

datatype outcome = Completed | Continued | Threw error

text \<open>The \<open>try\<close> block from the list request on.\<close>

definition run_poll :: "env \<Rightarrow> poller \<Rightarrow> st \<Rightarrow> outcome \<times> poller \<times> st" where
  "run_poll E P s =
     (case listTranscripts E (token P) (RTA_MEETING_ID E) s of
        (Inl e, s1) \<Rightarrow> (Threw e, P, s1)
      | (Inr lst, s1) \<Rightarrow>
          if truthy (opt_get (Some lst) (lit ''_empty'')) then
            (Continued, P,
             sleep (Number E (POLL_MS E))
               (if VERBOSE E = lit ''1''
                then console_log (lit ''[list] Empty body (202/204 or no data yet).'') s1
                else s1))
          else if truthy (opt_get (Some lst) (lit ''_raw'')) then
            (Continued, P,
             sleep (Number E (POLL_MS E))
               (console_log (take 400 (tpl (opt_get (Some lst) (lit ''_raw''))))
                  (console_log (lit ''[list] Non-JSON body received (showing first 400 chars):'') s1)))
          else
            let s2 = (if VERBOSE E = lit ''1''
                      then console_dir lst (console_log (lit ''~ list payload ~'') s1)
                      else s1);
                items = list_items lst
            in case process_items E items P s2 of
                 (None, P1, s3) \<Rightarrow> (Completed, P1, s3)
               | (Some e, P1, s3) \<Rightarrow> (Threw e, P1, s3))"

text \<open>The whole \<open>try\<close> block: the age check of the token, then the poll.\<close>

definition run_try :: "env \<Rightarrow> poller \<Rightarrow> st \<Rightarrow> outcome \<times> poller \<times> st" where
  "run_try E P s =
     (case Date_now E s of
        (now, s1) \<Rightarrow>
          if now - tokenAcquiredAt P > 50 * 60 * 1000 then
            (case getToken E s1 of
               (Inl e, s2) \<Rightarrow> (Threw e, P, s2)
             | (Inr tok, s2) \<Rightarrow>
                 (case Date_now E s2 of
                    (now2, s3) \<Rightarrow> run_poll E (P\<lparr>token := tok, tokenAcquiredAt := now2\<rparr>) s3))
          else run_poll E P s1)"

text \<open>
  The \<open>catch\<close> block. \<open>err.message || ''\<close> is the message itself, a string. An error of
  \<open>getToken\<close> here is thrown out of the loop: the first component of the result.
\<close>

definition run_catch :: "env \<Rightarrow> error \<Rightarrow> poller \<Rightarrow> st \<Rightarrow> error option \<times> poller \<times> st" where
  "run_catch E err P s =
     (if js_includes (if message err \<noteq> [] then message err else []) (lit ''401'') then
        (case getToken E (console_warn (lit ''401 from Graph. Refreshing token...'') s) of
           (Inl e, s1) \<Rightarrow> (Some e, P, s1)
         | (Inr tok, s1) \<Rightarrow>
             (case Date_now E s1 of
                (now, s2) \<Rightarrow> (None, P\<lparr>token := tok, tokenAcquiredAt := now\<rparr>, s2)))
      else (None, P, console_warn (lit ''Poll error: '' @ message err) s))"

text \<open>One pass of \<open>while (true)\<close>. The first component is the error that leaves the loop.\<close>

definition iteration :: "env \<Rightarrow> poller \<Rightarrow> st \<Rightarrow> error option \<times> poller \<times> st" where
  "iteration E P s =
     (case run_try E P s of
        (Completed, P1, s1) \<Rightarrow> (None, P1, sleep (Number E (POLL_MS E)) s1)
      | (Continued, P1, s1) \<Rightarrow> (None, P1, s1)
      | (Threw err, P1, s1) \<Rightarrow>
          (case run_catch E err P1 s1 of
             (Some e, P2, s2) \<Rightarrow> (Some e, P2, s2)
           | (None, P2, s2) \<Rightarrow> (None, P2, sleep (Number E (POLL_MS E)) s2)))"

text \<open>
  The loop never ends by itself, so it is followed for a number of passes: \<open>run_loop n\<close>
  gives the error that left the loop within \<open>n\<close> passes, or \<open>None\<close> and the variables
  after \<open>n\<close> passes.
\<close>

fun run_loop :: "nat \<Rightarrow> env \<Rightarrow> poller \<Rightarrow> st \<Rightarrow> error option \<times> poller \<times> st" where
  "run_loop 0 E P s = (None, P, s)"
| "run_loop (Suc n) E P s =
     (case iteration E P s of
        (Some e, P1, s1) \<Rightarrow> (Some e, P1, s1)
      | (None, P1, s1) \<Rightarrow> run_loop n E P1 s1)"

text \<open>\<open>run\<close>, followed for \<open>n\<close> passes of its loop: \<open>Inl\<close> is the error \<open>run()\<close> rejects with.\<close>

definition run :: "nat \<Rightarrow> env \<Rightarrow> st \<Rightarrow> (error + poller) \<times> st" where
  "run n E s =
     (let s1 = console_log (lit ''== Microsoft Graph RTA Transcript Poller =='') s;
          s2 = console_log (lit ''Meeting: '' @ RTA_MEETING_ID E) s1;
          s3 = console_log (lit ''Interval: '' @ POLL_MS E @ lit '' ms'') s2
      in case getToken E s3 of
           (Inl e, s4) \<Rightarrow> (Inl e, s4)
         | (Inr tok, s4) \<Rightarrow>
             (case Date_now E s4 of
                (now, s5) \<Rightarrow>
                  (case run_loop n E \<lparr>token = tok, tokenAcquiredAt = now, seen = []\<rparr> s5 of
                     (Some e, P, s6) \<Rightarrow> (Inl e, s6)
                   | (None, P, s6) \<Rightarrow> (Inr P, s6))))"

text \<open>
  The last statement of the script, \<open>run().catch(e => { console.error(e); process.exit(1) })\<close>:
  the exit code when \<open>run()\<close> rejected within \<open>n\<close> passes, \<open>None\<close> while it is still running.
  The model begins where the check of the configuration has passed.
\<close>

definition main :: "nat \<Rightarrow> env \<Rightarrow> st \<Rightarrow> nat option \<times> st" where
  "main n E s =
     (case run n E s of
        (Inl e, s1) \<Rightarrow> (Some 1, emit (EvExit 1) (emit (EvError e) s1))
      | (Inr P, s1) \<Rightarrow> (None, s1))"

section \<open>The script without \<open>safeJson\<close> (src/index.js)\<close>

text \<open>
  The repository holds an earlier form of the same script. Its \<open>getToken\<close>, its URLs and
  its \<open>catch\<close> block are those above; what differs is modelled here under the same names
  with the suffix \<open>_index\<close>. Its error message names the URL.
\<close>

definition http_error_message_index :: "response \<Rightarrow> jsstring \<Rightarrow> jsstring" where
  "http_error_message_index res url =
     (let body = (case res_text res of Inl _ \<Rightarrow> [] | Inr t \<Rightarrow> t)
      in lit ''HTTP '' @ digits (status res) @ lit '' '' @ statusText res @ lit '' for '' @ url
         @ [10] @ body)"

function fetchWithRetry_index_loop ::
  "env \<Rightarrow> jsstring \<Rightarrow> (jsstring \<times> jsstring) list \<Rightarrow> nat \<Rightarrow> nat \<Rightarrow> st \<Rightarrow> (error + response) \<times> st"
where
  "fetchWithRetry_index_loop E url options maxAttempts attempt0 s =
     (let attempt = attempt0 + 1 in
      case fetch E url options s of
        (Inl e, s1) \<Rightarrow> (Inl e, s1)
      | (Inr res, s1) \<Rightarrow>
          if ok res then (Inr res, s1)
          else if (status res = 429 \<or> status res = 503) \<and> attempt < maxAttempts then
            let wait = retry_wait E res attempt;
                s2 = console_warn (lit ''['' @ digits (status res) @ lit ''] throttled; retrying in ''
                                   @ num_String wait @ lit ''ms...'') s1;
                s3 = sleep wait s2
            in fetchWithRetry_index_loop E url options maxAttempts attempt s3
          else (Inl (HttpError (http_error_message_index res url)), s1))"
  by pat_completeness auto
termination
  by (relation "measure (\<lambda>(E, url, options, maxAttempts, attempt0, s). maxAttempts - attempt0)") auto

declare fetchWithRetry_index_loop.simps [simp del]

definition fetchWithRetry_index ::
  "env \<Rightarrow> jsstring \<Rightarrow> (jsstring \<times> jsstring) list \<Rightarrow> nat \<Rightarrow> st \<Rightarrow> (error + response) \<times> st"
where
  "fetchWithRetry_index E url options maxAttempts s =
     fetchWithRetry_index_loop E url options maxAttempts 0 s"

text \<open>\<open>res.json()\<close>: the body read as text and given to \<open>JSON.parse\<close>.\<close>

definition res_json :: "env \<Rightarrow> response \<Rightarrow> error + json" where
  "res_json E res =
     (case res_text res of
        Inl m \<Rightarrow> Inl (NetworkError m)
      | Inr txt \<Rightarrow>
          (case JSON_parse E txt of
             Inl m \<Rightarrow> Inl (SyntaxError m)
           | Inr v \<Rightarrow> Inr v))"

definition listTranscripts_index :: "env \<Rightarrow> jsstring \<Rightarrow> jsstring \<Rightarrow> st \<Rightarrow> (error + json) \<times> st" where
  "listTranscripts_index E accessToken meetingId s =
     (case transcriptsListUrl E meetingId of
        Inl e \<Rightarrow> (Inl e, s)
      | Inr url \<Rightarrow>
          (case fetchWithRetry_index E url (request_options accessToken) 5 s of
             (Inl e, s1) \<Rightarrow> (Inl e, s1)
           | (Inr res, s1) \<Rightarrow> (res_json E res, s1)))"

definition getTranscript_index :: "env \<Rightarrow> jsstring \<Rightarrow> jsstring \<Rightarrow> json \<Rightarrow> st \<Rightarrow> (error + json) \<times> st" where
  "getTranscript_index E accessToken meetingId transcriptId s =
     (case transcriptDetailUrl E meetingId (js_String transcriptId) of
        Inl e \<Rightarrow> (Inl e, s)
      | Inr url \<Rightarrow>
          (case fetchWithRetry_index E url (request_options accessToken) 5 s of
             (Inl e, s1) \<Rightarrow> (Inl e, s1)
           | (Inr res, s1) \<Rightarrow> (res_json E res, s1)))"

text \<open>
  The printer of this script reads \<open>obj.id\<close> without \<open>?.\<close>: that throws on \<open>null\<close> only, and the
  loop calls the printer on values that are not \<open>null\<close>, so the model is given for those.
  Its text chain ends with \<open>obj?.alternatives?.[0]?.text\<close>, which also reads the property
  \<open>0\<close> of an object.
\<close>

definition pp_text_index :: "json \<Rightarrow> json option" where
  "pp_text_index obj =
     coalesce (coalesce (coalesce (opt_get (Some obj) (lit ''text''))
                                  (opt_get (Some obj) (lit ''content'')))
                        (opt_get (Some obj) (lit ''combinedText'')))
              (case opt_get (Some obj) (lit ''alternatives'') of
                 Some (JArr alts) \<Rightarrow>
                   (case alts of [] \<Rightarrow> None | a # _ \<Rightarrow> opt_get (Some a) (lit ''text''))
               | Some (JObj kvs) \<Rightarrow> opt_get (map_of kvs (lit ''0'')) (lit ''text'')
               | _ \<Rightarrow> None)"

definition prettyPrintTranscript_index :: "json \<Rightarrow> st \<Rightarrow> st" where
  "prettyPrintTranscript_index obj s =
     (let header = pp_header obj;
          s1 = console_log (if header \<noteq> [] then header
                            else [8226] @ lit '' id: '' @ tpl (pp_id obj)) s
      in if truthy (pp_text_index obj)
         then console_log (lit ''  '' @ tpl (pp_text_index obj)) s1 else s1)"

text \<open>
  The inner \<open>try\<close> statement of the loop: the detail is fetched and printed, and an error
  thrown on the way is caught and logged. Nothing is thrown out of it.
\<close>

definition try_detail_index :: "env \<Rightarrow> jsstring \<Rightarrow> json \<Rightarrow> st \<Rightarrow> st" where
  "try_detail_index E accessToken i s =
     (case getTranscript_index E accessToken (RTA_MEETING_ID E) i s of
        (Inl e, s3) \<Rightarrow>
          console_warn (lit ''Failed to fetch detail for '' @ js_String i @ lit '': '' @ message e) s3
      | (Inr detail, s3) \<Rightarrow>
          let s4 = (if VERBOSE E = lit ''1''
                    then console_dir detail (console_log (lit ''~ detail payload ~'') s3)
                    else s3)
          in if truthy (Some detail)
             then prettyPrintTranscript_index detail (console_log (lit ''Detail snippet:'') s4)
             else s4)"

text \<open>
  The loop over the items. \<open>t.id\<close> throws on a \<open>null\<close> item, outside the inner \<open>try\<close>.
\<close>

fun process_items_index :: "env \<Rightarrow> json list \<Rightarrow> poller \<Rightarrow> st \<Rightarrow> error option \<times> poller \<times> st" where
  "process_items_index E [] P s = (None, P, s)"
| "process_items_index E (t # ts) P s =
     (if t = JNull then
        (Some (TypeError (lit ''Cannot read properties of null (reading '' @ [39] @ lit ''id''
                          @ [39] @ lit '')'')), P, s)
      else case item_id t of
        None \<Rightarrow> process_items_index E ts P s
      | Some i \<Rightarrow>
          if \<not> truthy (Some i) \<or> seen_has (seen P) i then process_items_index E ts P s
          else
            let P1 = P\<lparr>seen := seen_add (seen P) i\<rparr>;
                s1 = console_log ([10] @ lit ''NEW transcript fragment detected:'') s;
                s2 = prettyPrintTranscript_index t s1
            in process_items_index E ts P1 (try_detail_index E (token P1) i s2))"

definition run_poll_index :: "env \<Rightarrow> poller \<Rightarrow> st \<Rightarrow> outcome \<times> poller \<times> st" where
  "run_poll_index E P s =
     (case listTranscripts_index E (token P) (RTA_MEETING_ID E) s of
        (Inl e, s1) \<Rightarrow> (Threw e, P, s1)
      | (Inr lst, s1) \<Rightarrow>
          let items = list_items lst;
              s2 = (if VERBOSE E = lit ''1''
                    then console_dir lst (console_log (lit ''~ list payload ~'') s1)
                    else s1)
          in case process_items_index E items P s2 of
               (None, P1, s3) \<Rightarrow> (Completed, P1, s3)
             | (Some e, P1, s3) \<Rightarrow> (Threw e, P1, s3))"

definition run_try_index :: "env \<Rightarrow> poller \<Rightarrow> st \<Rightarrow> outcome \<times> poller \<times> st" where
  "run_try_index E P s =
     (case Date_now E s of
        (now, s1) \<Rightarrow>
          if now - tokenAcquiredAt P > 50 * 60 * 1000 then
            (case getToken E s1 of
               (Inl e, s2) \<Rightarrow> (Threw e, P, s2)
             | (Inr tok, s2) \<Rightarrow>
                 (case Date_now E s2 of
                    (now2, s3) \<Rightarrow> run_poll_index E (P\<lparr>token := tok, tokenAcquiredAt := now2\<rparr>) s3))
          else run_poll_index E P s1)"

definition iteration_index :: "env \<Rightarrow> poller \<Rightarrow> st \<Rightarrow> error option \<times> poller \<times> st" where
  "iteration_index E P s =
     (case run_try_index E P s of
        (Completed, P1, s1) \<Rightarrow> (None, P1, sleep (Number E (POLL_MS E)) s1)
      | (Continued, P1, s1) \<Rightarrow> (None, P1, s1)
      | (Threw err, P1, s1) \<Rightarrow>
          (case run_catch E err P1 s1 of
             (Some e, P2, s2) \<Rightarrow> (Some e, P2, s2)
           | (None, P2, s2) \<Rightarrow> (None, P2, sleep (Number E (POLL_MS E)) s2)))"

fun run_loop_index :: "nat \<Rightarrow> env \<Rightarrow> poller \<Rightarrow> st \<Rightarrow> error option \<times> poller \<times> st" where
  "run_loop_index 0 E P s = (None, P, s)"
| "run_loop_index (Suc n) E P s =
     (case iteration_index E P s of
        (Some e, P1, s1) \<Rightarrow> (Some e, P1, s1)
      | (None, P1, s1) \<Rightarrow> run_loop_index n E P1 s1)"

definition run_index :: "nat \<Rightarrow> env \<Rightarrow> st \<Rightarrow> (error + poller) \<times> st" where
  "run_index n E s =
     (let s1 = console_log (lit ''== Microsoft Graph RTA Transcript Poller =='') s;
          s2 = console_log (lit ''Meeting: '' @ RTA_MEETING_ID E) s1;
          s3 = console_log (lit ''Interval: '' @ POLL_MS E @ lit '' ms'') s2
      in case getToken E s3 of
           (Inl e, s4) \<Rightarrow> (Inl e, s4)
         | (Inr tok, s4) \<Rightarrow>
             (case Date_now E s4 of
                (now, s5) \<Rightarrow>
                  (case run_loop_index n E \<lparr>token = tok, tokenAcquiredAt = now, seen = []\<rparr> s5 of
                     (Some e, P, s6) \<Rightarrow> (Inl e, s6)
                   | (None, P, s6) \<Rightarrow> (Inr P, s6))))"

section \<open>Observations on a trace\<close>

fun is_fetch :: "event \<Rightarrow> bool" where
  "is_fetch (EvFetch url options) = True"
| "is_fetch e = False"

fun sleep_of :: "event \<Rightarrow> int option option" where
  "sleep_of (EvSleep w) = Some w"
| "sleep_of e = None"

definition sleeps :: "event list \<Rightarrow> int option list" where
  "sleeps tr = List.map_filter sleep_of tr"

definition fetches :: "event list \<Rightarrow> event list" where
  "fetches tr = filter is_fetch tr"

text \<open>A body is blank when all of it is white space; the content type is declared JSON
  when the header is there and includes \<open>application/json\<close>.\<close>

definition blank :: "jsstring \<Rightarrow> bool" where
  "blank txt \<longleftrightarrow> (\<forall>c \<in> set txt. js_space c)"

definition declared_json :: "response \<Rightarrow> bool" where
  "declared_json res \<longleftrightarrow>
     (case headers_get res (lit ''content-type'') of
        None \<Rightarrow> False
      | Some c \<Rightarrow> js_includes c (lit ''application/json''))"

text \<open>
  The check \<open>seen.has(id)\<close> and the insertion \<open>seen.add(id)\<close> of the loop taken as one step:
  whether the identifier is new, and the set afterwards.
\<close>

definition markIfNew :: "json list \<Rightarrow> json \<Rightarrow> bool \<times> json list" where
  "markIfNew sn i = (if seen_has sn i then (False, sn) else (True, seen_add sn i))"

text \<open>The loop skips an item without an identifier, with a falsy one, or with one it has seen.\<close>

definition skipped :: "json list \<Rightarrow> json \<Rightarrow> bool" where
  "skipped sn t \<longleftrightarrow>
     (case item_id t of None \<Rightarrow> True | Some i \<Rightarrow> \<not> truthy (Some i) \<or> seen_has sn i)"

text \<open>
  A step from \<open>s\<close> to \<open>s'\<close> that reads no clock and acquires no token, and adds to the trace
  only events that satisfy \<open>good\<close>.
\<close>

definition extends_with :: "(event \<Rightarrow> bool) \<Rightarrow> st \<Rightarrow> st \<Rightarrow> bool" where
  "extends_with good s s' \<longleftrightarrow>
     n_now s' = n_now s \<and> n_acquire s' = n_acquire s
     \<and> (\<exists>tr. trace s' = trace s @ tr \<and> (\<forall>e \<in> set tr. good e))"

text \<open>An event of a poll made with the token \<open>tok\<close>: no acquisition, and every request
  carries that token.\<close>

fun poll_event :: "jsstring \<Rightarrow> event \<Rightarrow> bool" where
  "poll_event tok EvAcquire = False"
| "poll_event tok (EvFetch url options) = (options = request_options tok)"
| "poll_event tok e = True"

section \<open>Concrete environments\<close>

text \<open>
  A stand-in for \<open>Number\<close>: exact on the empty string (0) and on an unsigned decimal literal
  small enough to be an exact double; every other string is left to \<open>None\<close>, also where
  \<open>Number\<close> has a value (white space around the digits, a sign, a fraction, an exponent).
\<close>

definition Number_digits :: "jsstring \<Rightarrow> int option" where
  "Number_digits str =
     (if str = [] then Some 0
      else if \<forall>c \<in> set str. 48 \<le> c \<and> c \<le> 57
      then Some (foldl (\<lambda>a c. 10 * a + int (c - 48)) 0 str)
      else None)"

text \<open>
  \<open>encodeURIComponent\<close>: unreserved characters stay, every other code point becomes the
  percent-escaped bytes of its UTF-8 form, and a lone surrogate makes the built-in throw.
\<close>

definition hex_digit :: "nat \<Rightarrow> nat" where
  "hex_digit n = (if n < 10 then 48 + n else 55 + n)"

definition pct :: "nat \<Rightarrow> jsstring" where
  "pct b = [37, hex_digit (b div 16), hex_digit (b mod 16)]"

definition uri_unreserved :: "nat \<Rightarrow> bool" where
  "uri_unreserved c \<longleftrightarrow>
     (65 \<le> c \<and> c \<le> 90) \<or> (97 \<le> c \<and> c \<le> 122) \<or> (48 \<le> c \<and> c \<le> 57)
     \<or> c = 45 \<or> c = 95 \<or> c = 46 \<or> c = 33 \<or> c = 126 \<or> c = 42 \<or> c = 39 \<or> c = 40 \<or> c = 41"

fun encodeURIComponent_std :: "jsstring \<Rightarrow> jsstring option" where
  "encodeURIComponent_std [] = Some []"
| "encodeURIComponent_std (c # cs) =
     (if uri_unreserved c then map_option (\<lambda>r. c # r) (encodeURIComponent_std cs)
      else if c < 128 then map_option (\<lambda>r. pct c @ r) (encodeURIComponent_std cs)
      else if c < 2048 then
        map_option (\<lambda>r. pct (192 + c div 64) @ pct (128 + c mod 64) @ r) (encodeURIComponent_std cs)
      else if c < 55296 \<or> 57344 \<le> c then
        map_option (\<lambda>r. pct (224 + c div 4096) @ pct (128 + (c div 64) mod 64)
                         @ pct (128 + c mod 64) @ r) (encodeURIComponent_std cs)
      else if c < 56320 then
        (case cs of
           [] \<Rightarrow> None
         | d # ds \<Rightarrow>
             if 56320 \<le> d \<and> d < 57344 then
               let cp = 65536 + (c - 55296) * 1024 + (d - 56320)
               in map_option (\<lambda>r. pct (240 + cp div 262144) @ pct (128 + (cp div 4096) mod 64)
                                   @ pct (128 + (cp div 64) mod 64) @ pct (128 + cp mod 64) @ r)
                    (encodeURIComponent_std ds)
             else None)
      else None)"

definition st0 :: st where
  "st0 = \<lparr>n_acquire = 0, n_now = 0, n_fetch = 0, trace = []\<rparr>"

definition resp :: "nat \<Rightarrow> jsstring \<Rightarrow> (jsstring \<times> jsstring) list \<Rightarrow> jsstring \<Rightarrow> response" where
  "resp st stt hs body = \<lparr>status = st, statusText = stt, headers = hs, res_text = Inr body\<rparr>"

text \<open>An environment whose identity library always answers and whose server has nothing.\<close>

definition env_base :: env where
  "env_base =
     \<lparr>acquireTokenByClientCredential = (\<lambda>n. Inr (Some (lit ''token'' @ digits n))),
      Date_now_at = (\<lambda>n. 1000 * int n),
      fetch_at = (\<lambda>n url options. Inr (resp 204 (lit ''No Content'') [] [])),
      JSON_parse = (\<lambda>str. Inl (lit ''Unexpected end of JSON input'')),
      encodeURIComponent = encodeURIComponent_std,
      Number = Number_digits,
      RTA_MEETING_ID = lit ''m1'',
      POLL_MS = lit ''2000'',
      VERBOSE = lit ''0''\<rparr>"

text \<open>A server that throttles every request.\<close>

definition env_throttled :: env where
  "env_throttled =
     env_base\<lparr>fetch_at := (\<lambda>n url options. Inr (resp 429 (lit ''Too Many Requests'') [] []))\<rparr>"

text \<open>A server that answers 503 with \<open>Retry-After: 2\<close>, then 503 without the header, then 200.\<close>

definition retry_r1 :: response where
  "retry_r1 = resp 503 (lit ''Service Unavailable'') [(lit ''retry-after'', lit ''2'')] []"

definition retry_r2 :: response where
  "retry_r2 = resp 503 (lit ''Service Unavailable'') [] []"

definition retry_r3 :: response where
  "retry_r3 = resp 200 (lit ''OK'') [(lit ''content-type'', lit ''application/json'')] (lit ''[]'')"

definition env_retry :: env where
  "env_retry =
     env_base\<lparr>fetch_at := (\<lambda>n url options.
        if n = 0 then Inr retry_r1 else if n = 1 then Inr retry_r2 else Inr retry_r3)\<rparr>"

text \<open>
  The bodies the examples use, with what \<open>JSON.parse\<close> makes of them; on every other
  string the stand-in for \<open>JSON.parse\<close> throws.
\<close>

definition parse_table :: "(jsstring \<times> json) list" where
  \<open>parse_table =
     [(lit ''{"value":[{"id":"a"}]}'',
       JObj [(lit ''value'', JArr [JObj [(lit ''id'', JStr (lit ''a''))]])]),
      (lit ''{"value":[{"id":"f1"},{"id":"f2"}]}'',
       JObj [(lit ''value'', JArr [JObj [(lit ''id'', JStr (lit ''f1''))],
                                   JObj [(lit ''id'', JStr (lit ''f2''))]])]),
      (lit ''{"value":[{"id":"f1"}]}'',
       JObj [(lit ''value'', JArr [JObj [(lit ''id'', JStr (lit ''f1''))]])]),
      (lit ''{"id":"f1","text":"hello world"}'',
       JObj [(lit ''id'', JStr (lit ''f1'')), (lit ''text'', JStr (lit ''hello world''))]),
      (lit ''{"id":"f2","text":"second"}'',
       JObj [(lit ''id'', JStr (lit ''f2'')), (lit ''text'', JStr (lit ''second''))])]\<close>

definition parse_stub :: "jsstring \<Rightarrow> jsstring + json" where
  "parse_stub str =
     (case map_of parse_table str of
        Some v \<Rightarrow> Inr v
      | None \<Rightarrow> Inl (lit ''Unexpected end of JSON input''))"

definition env_json :: env where
  "env_json = env_base\<lparr>JSON_parse := parse_stub\<rparr>"

definition json_header :: "(jsstring \<times> jsstring) list" where
  "json_header = [(lit ''content-type'', lit ''application/json'')]"

text \<open>The object of the field fallback example.\<close>

definition fallback_example :: json where
  "fallback_example =
     JObj [(lit ''transcriptId'', JStr (lit ''x'')),
           (lit ''locale'', JStr (lit ''en-US'')),
           (lit ''content'', JStr (lit ''hi''))]"

text \<open>The variables of \<open>run\<close> right after a start at time 0.\<close>

definition P0 :: poller where
  "P0 = \<lparr>token = lit ''token0'', tokenAcquiredAt = 0, seen = []\<rparr>"

text \<open>The state right after that start: one acquisition made, the clock read once.\<close>

definition st1 :: st where
  "st1 = \<lparr>n_acquire = 1, n_now = 1, n_fetch = 0, trace = []\<rparr>"

text \<open>The URLs of the list and of a detail for the meeting \<open>m1\<close>.\<close>

definition list_url_m1 :: jsstring where
  "list_url_m1 =
     base @ lit ''/copilot/communications/realtimeActivityFeed/meetings/m1/transcripts''"

definition detail_url_m1 :: "jsstring \<Rightarrow> jsstring" where
  "detail_url_m1 tid =
     base @ lit ''/copilot/communications/realtimeActivityFeed/meetings/m1/transcripts/'' @ tid"

text \<open>A clock that shows 0 at the start and exactly 50 minutes at every later reading.\<close>

definition env_fifty :: env where
  "env_fifty = env_base\<lparr>Date_now_at := (\<lambda>n. if n = 0 then 0 else 50 * 60 * 1000)\<rparr>"

text \<open>A clock that shows 0 at the start and one millisecond more than 50 minutes later.\<close>

definition env_stale :: env where
  "env_stale = env_base\<lparr>Date_now_at := (\<lambda>n. if n = 0 then 0 else 50 * 60 * 1000 + 1)\<rparr>"

text \<open>A server that answers 500 to every request, once with a plain body and once with a
  body that mentions 401.\<close>

definition env_500 :: env where
  "env_500 =
     env_base\<lparr>fetch_at := (\<lambda>n url options.
        Inr (resp 500 (lit ''Internal Server Error'') [] (lit ''boom'')))\<rparr>"

definition env_echo_401 :: env where
  "env_echo_401 =
     env_base\<lparr>fetch_at := (\<lambda>n url options.
        Inr (resp 500 (lit ''Internal Server Error'') [] (lit ''upstream said 401'')))\<rparr>"

text \<open>A server that answers 401 to every request; the identity library answers the first
  exchange and, in the second environment, rejects every later one.\<close>

definition env_401 :: env where
  "env_401 =
     env_base\<lparr>fetch_at := (\<lambda>n url options. Inr (resp 401 (lit ''Unauthorized'') [] []))\<rparr>"

definition env_auth_fail :: env where
  "env_auth_fail =
     env_401\<lparr>acquireTokenByClientCredential :=
        (\<lambda>n. if n = 0 then Inr (Some (lit ''token0'')) else Inl (lit ''invalid_client''))\<rparr>"

text \<open>The same identity library, with a token that is stale at every pass: the exchange
  that fails is the one at the age check.\<close>

definition env_stale_fail :: env where
  "env_stale_fail =
     env_stale\<lparr>acquireTokenByClientCredential :=
        (\<lambda>n. if n = 0 then Inr (Some (lit ''token0'')) else Inl (lit ''invalid_client''))\<rparr>"

text \<open>
  A server whose list has the fragments \<open>f1\<close> and \<open>f2\<close>: the first request is the list, the
  second, the detail of \<open>f1\<close>, is answered 500, and every later one with the detail of \<open>f2\<close>.
\<close>

definition env_two :: env where
  \<open>env_two =
     env_json\<lparr>fetch_at := (\<lambda>n url options.
        if n = 0 then Inr (resp 200 (lit ''OK'') json_header (lit ''{"value":[{"id":"f1"},{"id":"f2"}]}''))
        else if n = 1 then Inr (resp 500 (lit ''Internal Server Error'') [] (lit ''boom''))
        else Inr (resp 200 (lit ''OK'') json_header (lit ''{"id":"f2","text":"second"}'')))\<rparr>\<close>

text \<open>The state after the list request of the first pass, and after the acquisition that
  follows a 401.\<close>

definition s_listed :: st where
  "s_listed =
     \<lparr>n_acquire = 1, n_now = 2, n_fetch = 1,
      trace = [EvFetch list_url_m1 (request_options (lit ''token0''))]\<rparr>"

definition s_refreshed :: st where
  "s_refreshed =
     \<lparr>n_acquire = 2, n_now = 2, n_fetch = 1,
      trace = [EvFetch list_url_m1 (request_options (lit ''token0'')),
               EvWarn (lit ''401 from Graph. Refreshing token...''),
               EvAcquire]\<rparr>"

definition err_401 :: error where
  "err_401 = HttpError (lit ''HTTP 401 Unauthorized'' @ [10])"

definition err_echo_401 :: error where
  "err_echo_401 = HttpError (lit ''HTTP 500 Internal Server Error'' @ [10] @ lit ''upstream said 401'')"

text \<open>Two list items, with the identifiers \<open>f1\<close> and \<open>f2\<close>.\<close>

definition item_f1 :: json where
  "item_f1 = JObj [(lit ''id'', JStr (lit ''f1''))]"

definition item_f2 :: json where
  "item_f2 = JObj [(lit ''id'', JStr (lit ''f2''))]"

section \<open>Strings and events\<close>

lemma lit_eq_iff [simp]: "lit a = lit b \<longleftrightarrow> a = b"
  unfolding lit_def by (simp add: inj_on_def)

lemma lit_Nil_iff [simp]: "lit a = [] \<longleftrightarrow> a = []" "[] = lit a \<longleftrightarrow> a = []"
  unfolding lit_def by auto

lemma digits_numeral:
  "digits (numeral k) =
     (if (numeral k :: nat) < 10 then [48 + numeral k]
      else digits (numeral k div 10) @ [48 + numeral k mod 10])"
  by (rule digits.simps)

lemma digits_small: "digits 0 = [48]" "digits 1 = [49]" "digits (Suc 0) = [49]"
  by (simp_all add: digits.simps)

lemmas digits_eval = digits_numeral digits_small

lemma emit_simps [simp]:
  "n_fetch (emit e s) = n_fetch s" "n_now (emit e s) = n_now s"
  "n_acquire (emit e s) = n_acquire s" "trace (emit e s) = trace s @ [e]"
  by (simp_all add: emit_def)

lemma sleeps_simps [simp]:
  "sleeps [] = []"
  "sleeps (EvSleep w # tr) = w # sleeps tr"
  "sleeps (EvAcquire # tr) = sleeps tr"
  "sleeps (EvFetch url options # tr) = sleeps tr"
  "sleeps (EvLog m # tr) = sleeps tr"
  "sleeps (EvWarn m # tr) = sleeps tr"
  "sleeps (EvDir v # tr) = sleeps tr"
  "sleeps (EvError err # tr) = sleeps tr"
  "sleeps (EvExit c # tr) = sleeps tr"
  by (simp_all add: sleeps_def List.map_filter_simps)

lemma sleeps_append [simp]: "sleeps (tr @ tr') = sleeps tr @ sleeps tr'"
  by (simp add: sleeps_def List.map_filter_def)

lemma fetches_simps [simp]:
  "fetches [] = []"
  "fetches (EvFetch url options # tr) = EvFetch url options # fetches tr"
  "fetches (EvSleep w # tr) = fetches tr"
  "fetches (EvAcquire # tr) = fetches tr"
  "fetches (EvLog m # tr) = fetches tr"
  "fetches (EvWarn m # tr) = fetches tr"
  "fetches (EvDir v # tr) = fetches tr"
  "fetches (EvError err # tr) = fetches tr"
  "fetches (EvExit c # tr) = fetches tr"
  by (simp_all add: fetches_def)

lemma fetches_append [simp]: "fetches (tr @ tr') = fetches tr @ fetches tr'"
  by (simp add: fetches_def)

lemma js_includes_iff: "js_includes str sub \<longleftrightarrow> (\<exists>p q. str = p @ sub @ q)"
proof (induction str)
  case Nil
  then show ?case by auto
next
  case (Cons c cs)
  have a: "take (length sub) (c # cs) = sub \<longleftrightarrow> (\<exists>q. c # cs = sub @ q)"
    by (metis append_eq_conv_conj append_take_drop_id)
  have b: "(\<exists>p q. c # cs = p @ sub @ q) \<longleftrightarrow> (\<exists>q. c # cs = sub @ q) \<or> (\<exists>p q. cs = p @ sub @ q)"
  proof
    assume "\<exists>p q. c # cs = p @ sub @ q"
    then obtain p q where pq: "c # cs = p @ sub @ q" by blast
    show "(\<exists>q. c # cs = sub @ q) \<or> (\<exists>p q. cs = p @ sub @ q)"
    proof (cases p)
      case Nil
      with pq show ?thesis by auto
    next
      case (Cons x p')
      with pq have "cs = p' @ sub @ q" by simp
      then show ?thesis by blast
    qed
  next
    assume "(\<exists>q. c # cs = sub @ q) \<or> (\<exists>p q. cs = p @ sub @ q)"
    then show "\<exists>p q. c # cs = p @ sub @ q"
    proof
      assume "\<exists>q. c # cs = sub @ q"
      then obtain q where "c # cs = [] @ sub @ q" by auto
      then show ?thesis by blast
    next
      assume "\<exists>p q. cs = p @ sub @ q"
      then obtain p q where "c # cs = (c # p) @ sub @ q" by auto
      then show ?thesis by blast
    qed
  qed
  show ?case using Cons.IH a b by simp
qed

lemma js_includes_appendI1: "js_includes a sub \<Longrightarrow> js_includes (a @ b) sub"
  unfolding js_includes_iff by (metis append.assoc)

lemma js_includes_appendI2: "js_includes b sub \<Longrightarrow> js_includes (a @ b) sub"
  unfolding js_includes_iff by (metis append.assoc)

section \<open>The HTTP client\<close>

text \<open>The four ways one pass of the loop of \<open>fetchWithRetry\<close> goes.\<close>

lemma fetchWithRetry_loop_rejected:
  assumes "fetch_at E (n_fetch s) url options = Inl m"
  shows "fetchWithRetry_loop E url options maxAttempts attempt0 s
           = (Inl (NetworkError m), emit (EvFetch url options) (s\<lparr>n_fetch := Suc (n_fetch s)\<rparr>))"
  by (subst fetchWithRetry_loop.simps) (simp add: fetch_def assms)

lemma fetchWithRetry_loop_ok:
  assumes "fetch_at E (n_fetch s) url options = Inr res" and "ok res"
  shows "fetchWithRetry_loop E url options maxAttempts attempt0 s
           = (Inr res, emit (EvFetch url options) (s\<lparr>n_fetch := Suc (n_fetch s)\<rparr>))"
  by (subst fetchWithRetry_loop.simps) (simp add: fetch_def assms)

lemma fetchWithRetry_loop_retry:
  assumes "fetch_at E (n_fetch s) url options = Inr res" and "status res = 429 \<or> status res = 503"
    and "Suc attempt0 < maxAttempts"
  shows "fetchWithRetry_loop E url options maxAttempts attempt0 s
           = fetchWithRetry_loop E url options maxAttempts (Suc attempt0)
               (sleep (retry_wait E res (Suc attempt0))
                  (console_warn (lit ''['' @ digits (status res) @ lit ''] throttled; retrying in ''
                                 @ num_String (retry_wait E res (Suc attempt0)) @ lit ''ms...'')
                     (emit (EvFetch url options) (s\<lparr>n_fetch := Suc (n_fetch s)\<rparr>))))"
proof -
  have "\<not> ok res" using assms(2) by (auto simp: ok_def)
  then show ?thesis
    by (subst fetchWithRetry_loop.simps) (use assms in \<open>simp add: fetch_def Let_def\<close>)
qed

lemma fetchWithRetry_loop_give_up:
  assumes "fetch_at E (n_fetch s) url options = Inr res" and "\<not> ok res"
    and "\<not> ((status res = 429 \<or> status res = 503) \<and> Suc attempt0 < maxAttempts)"
  shows "fetchWithRetry_loop E url options maxAttempts attempt0 s
           = (Inl (HttpError (http_error_message res)),
              emit (EvFetch url options) (s\<lparr>n_fetch := Suc (n_fetch s)\<rparr>))"
  by (subst fetchWithRetry_loop.simps) (use assms in \<open>auto simp add: fetch_def\<close>)

text \<open>A server that always throttles: the loop gives up after the attempts that are left.\<close>

lemma throttled_loop:
  assumes thr: "\<forall>n. \<exists>res. fetch_at E n url options = Inr res \<and> status res = 429"
  shows "attempt0 < maxAttempts \<Longrightarrow>
    \<exists>res s'. fetchWithRetry_loop E url options maxAttempts attempt0 s
                = (Inl (HttpError (http_error_message res)), s')
      \<and> status res = 429
      \<and> n_fetch s' = n_fetch s + (maxAttempts - attempt0)
      \<and> fetches (trace s')
          = fetches (trace s) @ replicate (maxAttempts - attempt0) (EvFetch url options)"
proof (induction "maxAttempts - attempt0" arbitrary: attempt0 s)
  case 0
  then show ?case by simp
next
  case (Suc k)
  obtain res where r: "fetch_at E (n_fetch s) url options = Inr res" and st: "status res = 429"
    using thr by blast
  have nok: "\<not> ok res" using st by (simp add: ok_def)
  show ?case
  proof (cases "Suc attempt0 < maxAttempts")
    case False
    with Suc.prems have m: "maxAttempts - attempt0 = 1" by arith
    have "fetchWithRetry_loop E url options maxAttempts attempt0 s
            = (Inl (HttpError (http_error_message res)),
               emit (EvFetch url options) (s\<lparr>n_fetch := Suc (n_fetch s)\<rparr>))"
      by (rule fetchWithRetry_loop_give_up) (use r nok False in simp_all)
    then show ?thesis using st by (auto simp: m fetches_def)
  next
    case True
    let ?s3 = "sleep (retry_wait E res (Suc attempt0))
                 (console_warn (lit ''['' @ digits (status res) @ lit ''] throttled; retrying in ''
                                @ num_String (retry_wait E res (Suc attempt0)) @ lit ''ms...'')
                    (emit (EvFetch url options) (s\<lparr>n_fetch := Suc (n_fetch s)\<rparr>)))"
    have k: "k = maxAttempts - Suc attempt0" using Suc.hyps(2) by arith
    from Suc.hyps(1)[OF k True, of ?s3] obtain res' s' where
      ih: "fetchWithRetry_loop E url options maxAttempts (Suc attempt0) ?s3
             = (Inl (HttpError (http_error_message res')), s')"
        "status res' = 429" "n_fetch s' = n_fetch ?s3 + (maxAttempts - Suc attempt0)"
        "fetches (trace s')
           = fetches (trace ?s3) @ replicate (maxAttempts - Suc attempt0) (EvFetch url options)"
      by blast
    have step: "fetchWithRetry_loop E url options maxAttempts attempt0 s
                 = fetchWithRetry_loop E url options maxAttempts (Suc attempt0) ?s3"
      using r st True by (intro fetchWithRetry_loop_retry) simp_all
    have m: "maxAttempts - attempt0 = Suc (maxAttempts - Suc attempt0)" using True by arith
    show ?thesis
      unfolding step using ih
      by (auto simp add: m sleep_def console_warn_def fetches_def replicate_append_same)
  qed
qed

text \<open>The same for the loop of the script without \<open>safeJson\<close>.\<close>

lemma fetchWithRetry_index_loop_rejected:
  assumes "fetch_at E (n_fetch s) url options = Inl m"
  shows "fetchWithRetry_index_loop E url options maxAttempts attempt0 s
           = (Inl (NetworkError m), emit (EvFetch url options) (s\<lparr>n_fetch := Suc (n_fetch s)\<rparr>))"
  by (subst fetchWithRetry_index_loop.simps) (simp add: fetch_def assms)

lemma fetchWithRetry_index_loop_ok:
  assumes "fetch_at E (n_fetch s) url options = Inr res" and "ok res"
  shows "fetchWithRetry_index_loop E url options maxAttempts attempt0 s
           = (Inr res, emit (EvFetch url options) (s\<lparr>n_fetch := Suc (n_fetch s)\<rparr>))"
  by (subst fetchWithRetry_index_loop.simps) (simp add: fetch_def assms)

lemma fetchWithRetry_index_loop_retry:
  assumes "fetch_at E (n_fetch s) url options = Inr res" and "status res = 429 \<or> status res = 503"
    and "Suc attempt0 < maxAttempts"
  shows "fetchWithRetry_index_loop E url options maxAttempts attempt0 s
           = fetchWithRetry_index_loop E url options maxAttempts (Suc attempt0)
               (sleep (retry_wait E res (Suc attempt0))
                  (console_warn (lit ''['' @ digits (status res) @ lit ''] throttled; retrying in ''
                                 @ num_String (retry_wait E res (Suc attempt0)) @ lit ''ms...'')
                     (emit (EvFetch url options) (s\<lparr>n_fetch := Suc (n_fetch s)\<rparr>))))"
proof -
  have "\<not> ok res" using assms(2) by (auto simp: ok_def)
  then show ?thesis
    by (subst fetchWithRetry_index_loop.simps) (use assms in \<open>simp add: fetch_def Let_def\<close>)
qed

lemma fetchWithRetry_index_loop_give_up:
  assumes "fetch_at E (n_fetch s) url options = Inr res" and "\<not> ok res"
    and "\<not> ((status res = 429 \<or> status res = 503) \<and> Suc attempt0 < maxAttempts)"
  shows "fetchWithRetry_index_loop E url options maxAttempts attempt0 s
           = (Inl (HttpError (http_error_message_index res url)),
              emit (EvFetch url options) (s\<lparr>n_fetch := Suc (n_fetch s)\<rparr>))"
  by (subst fetchWithRetry_index_loop.simps) (use assms in \<open>auto simp add: fetch_def\<close>)

lemma throttled_index_loop:
  assumes thr: "\<forall>n. \<exists>res. fetch_at E n url options = Inr res \<and> status res = 429"
  shows "attempt0 < maxAttempts \<Longrightarrow>
    \<exists>res s'. fetchWithRetry_index_loop E url options maxAttempts attempt0 s
                = (Inl (HttpError (http_error_message_index res url)), s')
      \<and> status res = 429
      \<and> n_fetch s' = n_fetch s + (maxAttempts - attempt0)
      \<and> fetches (trace s')
          = fetches (trace s) @ replicate (maxAttempts - attempt0) (EvFetch url options)"
proof (induction "maxAttempts - attempt0" arbitrary: attempt0 s)
  case 0
  then show ?case by simp
next
  case (Suc k)
  obtain res where r: "fetch_at E (n_fetch s) url options = Inr res" and st: "status res = 429"
    using thr by blast
  have nok: "\<not> ok res" using st by (simp add: ok_def)
  show ?case
  proof (cases "Suc attempt0 < maxAttempts")
    case False
    with Suc.prems have m: "maxAttempts - attempt0 = 1" by arith
    have "fetchWithRetry_index_loop E url options maxAttempts attempt0 s
            = (Inl (HttpError (http_error_message_index res url)),
               emit (EvFetch url options) (s\<lparr>n_fetch := Suc (n_fetch s)\<rparr>))"
      by (rule fetchWithRetry_index_loop_give_up) (use r nok False in simp_all)
    then show ?thesis using st by (auto simp: m)
  next
    case True
    let ?s3 = "sleep (retry_wait E res (Suc attempt0))
                 (console_warn (lit ''['' @ digits (status res) @ lit ''] throttled; retrying in ''
                                @ num_String (retry_wait E res (Suc attempt0)) @ lit ''ms...'')
                    (emit (EvFetch url options) (s\<lparr>n_fetch := Suc (n_fetch s)\<rparr>)))"
    have k: "k = maxAttempts - Suc attempt0" using Suc.hyps(2) by arith
    from Suc.hyps(1)[OF k True, of ?s3] obtain res' s' where
      ih: "fetchWithRetry_index_loop E url options maxAttempts (Suc attempt0) ?s3
             = (Inl (HttpError (http_error_message_index res' url)), s')"
        "status res' = 429" "n_fetch s' = n_fetch ?s3 + (maxAttempts - Suc attempt0)"
        "fetches (trace s')
           = fetches (trace ?s3) @ replicate (maxAttempts - Suc attempt0) (EvFetch url options)"
      by blast
    have step: "fetchWithRetry_index_loop E url options maxAttempts attempt0 s
                 = fetchWithRetry_index_loop E url options maxAttempts (Suc attempt0) ?s3"
      using r st True by (intro fetchWithRetry_index_loop_retry) simp_all
    have m: "maxAttempts - attempt0 = Suc (maxAttempts - Suc attempt0)" using True by arith
    show ?thesis
      unfolding step using ih
      by (auto simp add: m sleep_def console_warn_def replicate_append_same)
  qed
qed

lemma http_error_message_index_echo:
  "res_text res = Inr body \<Longrightarrow> js_includes body sub \<Longrightarrow>
     js_includes (http_error_message_index res url) sub"
  "js_includes url sub \<Longrightarrow> js_includes (http_error_message_index res url) sub"
  by (simp_all add: http_error_message_index_def js_includes_appendI1 js_includes_appendI2)

text \<open>
  C2. When the server answers 429 to every attempt, \<open>fetchWithRetry\<close> with its five
  attempts calls \<open>fetch\<close> exactly five times, each with the same URL and options, and then
  throws the \<open>HttpError\<close> made from a response with status 429. This holds of the client
  of either script.
\<close>

theorem fetchWithRetry_throttled_exhausts:
  assumes "\<forall>n. \<exists>res. fetch_at E n url options = Inr res \<and> status res = 429"
  shows "(\<exists>res s'. fetchWithRetry E url options 5 s = (Inl (HttpError (http_error_message res)), s')
            \<and> status res = 429
            \<and> n_fetch s' = n_fetch s + 5
            \<and> fetches (trace s') = fetches (trace s) @ replicate 5 (EvFetch url options))
       \<and> (\<exists>res s'. fetchWithRetry_index E url options 5 s
                        = (Inl (HttpError (http_error_message_index res url)), s')
            \<and> status res = 429
            \<and> n_fetch s' = n_fetch s + 5
            \<and> fetches (trace s') = fetches (trace s) @ replicate 5 (EvFetch url options))"
  using throttled_loop[OF assms, of 0 5 s] throttled_index_loop[OF assms, of 0 5 s]
  by (simp add: fetchWithRetry_def fetchWithRetry_index_def)

theorem fetchWithRetry_throttled_exhausts_witness:
  "(\<forall>n. \<exists>res. fetch_at env_throttled n (lit ''u'') [] = Inr res \<and> status res = 429)
   \<and> (\<exists>res s'. fetchWithRetry env_throttled (lit ''u'') [] 5 st0
                  = (Inl (HttpError (http_error_message res)), s')
         \<and> status res = 429
         \<and> n_fetch s' = n_fetch st0 + 5
         \<and> fetches (trace s') = fetches (trace st0) @ replicate 5 (EvFetch (lit ''u'') []))
   \<and> (\<exists>res s'. fetchWithRetry_index env_throttled (lit ''u'') [] 5 st0
                  = (Inl (HttpError (http_error_message_index res (lit ''u''))), s')
         \<and> status res = 429
         \<and> n_fetch s' = n_fetch st0 + 5
         \<and> fetches (trace s') = fetches (trace st0) @ replicate 5 (EvFetch (lit ''u'') []))"
proof -
  have h: "\<forall>n. \<exists>res. fetch_at env_throttled n (lit ''u'') [] = Inr res \<and> status res = 429"
    by (simp add: env_throttled_def env_base_def resp_def)
  show ?thesis
    using h fetchWithRetry_throttled_exhausts[OF h, of st0] by (intro conjI) blast+
qed

text \<open>
  C3, amended. For the responses 503 with \<open>Retry-After: 2\<close>, 503 without the header, and
  200, \<open>fetchWithRetry\<close> sleeps 2000 ms after the first response and 4000 ms
  (\<open>1000 * 2 ** 2\<close>, the counter being 2 at the second response) after the second, then
  returns the third response, having called \<open>fetch\<close> exactly three times.
\<close>

theorem fetchWithRetry_retry_after_then_backoff:
  assumes num: "Number E (lit ''2'') = Some 2"
    and r1: "fetch_at E (n_fetch s) url options = Inr r1" "status r1 = 503"
            "headers_get r1 (lit ''retry-after'') = Some (lit ''2'')"
    and r2: "fetch_at E (n_fetch s + 1) url options = Inr r2" "status r2 = 503"
            "headers_get r2 (lit ''retry-after'') = None"
    and r3: "fetch_at E (n_fetch s + 2) url options = Inr r3" "status r3 = 200"
  shows "\<exists>s'. fetchWithRetry E url options 5 s = (Inr r3, s')
           \<and> trace s' = trace s @
                [EvFetch url options,
                 EvWarn (lit ''[503] throttled; retrying in 2000ms...''), EvSleep (Some 2000),
                 EvFetch url options,
                 EvWarn (lit ''[503] throttled; retrying in 4000ms...''), EvSleep (Some 4000),
                 EvFetch url options]
           \<and> sleeps (trace s') = sleeps (trace s) @ [Some 2000, Some 4000]
           \<and> n_fetch s' = n_fetch s + 3"
proof -
  have w1: "retry_wait E r1 (Suc 0) = Some 2000"
    by (simp add: retry_wait_def r1 num)
  have w2: "retry_wait E r2 (Suc (Suc 0)) = Some 4000"
    by (simp add: retry_wait_def r2)
  have m1: "lit ''['' @ digits 503 @ lit ''] throttled; retrying in '' @ num_String (Some 2000) @ lit ''ms...''
              = lit ''[503] throttled; retrying in 2000ms...''"
    by (simp add: lit_def digits_eval num_String_def int_String_def)
  have m2: "lit ''['' @ digits 503 @ lit ''] throttled; retrying in '' @ num_String (Some 4000) @ lit ''ms...''
              = lit ''[503] throttled; retrying in 4000ms...''"
    by (simp add: lit_def digits_eval num_String_def int_String_def)
  let ?a = "sleep (Some 2000) (console_warn (lit ''[503] throttled; retrying in 2000ms...'')
              (emit (EvFetch url options) (s\<lparr>n_fetch := Suc (n_fetch s)\<rparr>)))"
  let ?b = "sleep (Some 4000) (console_warn (lit ''[503] throttled; retrying in 4000ms...'')
              (emit (EvFetch url options) (?a\<lparr>n_fetch := Suc (n_fetch ?a)\<rparr>)))"
  have s1: "fetchWithRetry_loop E url options 5 0 s = fetchWithRetry_loop E url options 5 (Suc 0) ?a"
    using fetchWithRetry_loop_retry[of E s url options r1 0 5] r1 by (simp add: w1 m1)
  have na: "n_fetch ?a = n_fetch s + 1" by (simp add: sleep_def console_warn_def)
  have s2: "fetchWithRetry_loop E url options 5 (Suc 0) ?a
              = fetchWithRetry_loop E url options 5 (Suc (Suc 0)) ?b"
    using fetchWithRetry_loop_retry[of E ?a url options r2 "Suc 0" 5] r2 by (simp add: na w2 m2)
  have nb: "n_fetch ?b = n_fetch s + 2" by (simp add: sleep_def console_warn_def)
  have s3: "fetchWithRetry_loop E url options 5 (Suc (Suc 0)) ?b
              = (Inr r3, emit (EvFetch url options) (?b\<lparr>n_fetch := Suc (n_fetch ?b)\<rparr>))"
    using r3 by (intro fetchWithRetry_loop_ok) (simp_all add: nb ok_def)
  show ?thesis
    unfolding fetchWithRetry_def s1 s2 s3
    by (simp add: sleep_def console_warn_def)
qed

theorem fetchWithRetry_retry_after_then_backoff_witness:
  "Number env_retry (lit ''2'') = Some 2
   \<and> fetch_at env_retry (n_fetch st0) (lit ''u'') [] = Inr retry_r1
   \<and> status retry_r1 = 503
   \<and> headers_get retry_r1 (lit ''retry-after'') = Some (lit ''2'')
   \<and> fetch_at env_retry (n_fetch st0 + 1) (lit ''u'') [] = Inr retry_r2
   \<and> status retry_r2 = 503
   \<and> headers_get retry_r2 (lit ''retry-after'') = None
   \<and> fetch_at env_retry (n_fetch st0 + 2) (lit ''u'') [] = Inr retry_r3
   \<and> status retry_r3 = 200
   \<and> (\<exists>s'. fetchWithRetry env_retry (lit ''u'') [] 5 st0 = (Inr retry_r3, s')
           \<and> trace s' = trace st0 @
                [EvFetch (lit ''u'') [],
                 EvWarn (lit ''[503] throttled; retrying in 2000ms...''), EvSleep (Some 2000),
                 EvFetch (lit ''u'') [],
                 EvWarn (lit ''[503] throttled; retrying in 4000ms...''), EvSleep (Some 4000),
                 EvFetch (lit ''u'') []]
           \<and> sleeps (trace s') = sleeps (trace st0) @ [Some 2000, Some 4000]
           \<and> n_fetch s' = n_fetch st0 + 3)"
proof -
  note d = env_retry_def env_base_def st0_def resp_def headers_get_def
    retry_r1_def retry_r2_def retry_r3_def
  have a: "Number env_retry (lit ''2'') = Some 2"
    by (simp add: d Number_digits_def lit_def)
  have b1: "fetch_at env_retry (n_fetch st0) (lit ''u'') [] = Inr retry_r1"
    and b2: "status retry_r1 = 503"
    and b3: "headers_get retry_r1 (lit ''retry-after'') = Some (lit ''2'')"
    by (simp_all add: d)
  have c1: "fetch_at env_retry (n_fetch st0 + 1) (lit ''u'') [] = Inr retry_r2"
    and c2: "status retry_r2 = 503"
    and c3: "headers_get retry_r2 (lit ''retry-after'') = None"
    by (simp_all add: d)
  have e1: "fetch_at env_retry (n_fetch st0 + 2) (lit ''u'') [] = Inr retry_r3"
    and e2: "status retry_r3 = 200"
    by (simp_all add: d)
  from fetchWithRetry_retry_after_then_backoff[OF a b1 b2 b3 c1 c2 c3 e1 e2]
  show ?thesis using a b1 b2 b3 c1 c2 c3 e1 e2 by (intro conjI) assumption+
qed

text \<open>
  The claim as it is written, with a second wait of 2000 ms, fails on the three responses
  it names: the second wait is 4000 ms.
\<close>

theorem fetchWithRetry_second_wait_counterexample:
  "sleeps (trace (snd (fetchWithRetry env_retry (lit ''u'') [] 5 st0))) = [Some 2000, Some 4000]
   \<and> sleeps (trace (snd (fetchWithRetry env_retry (lit ''u'') [] 5 st0))) \<noteq> [Some 2000, Some 2000]"
  by (simp add: fetchWithRetry_def fetchWithRetry_loop_retry fetchWithRetry_loop_ok
     env_retry_def env_base_def st0_def resp_def retry_r1_def retry_r2_def retry_r3_def ok_def retry_wait_def headers_get_def Number_digits_def sleep_def console_warn_def lit_def)

section \<open>The response decoder\<close>

lemma all_dropWhile_iff: "(\<forall>x \<in> set (dropWhile P xs). P x) \<longleftrightarrow> (\<forall>x \<in> set xs. P x)"
proof
  assume a: "\<forall>x \<in> set (dropWhile P xs). P x"
  have "dropWhile P xs = []"
  proof (rule ccontr)
    assume ne: "dropWhile P xs \<noteq> []"
    then have "\<not> P (hd (dropWhile P xs))" by (rule hd_dropWhile)
    moreover have "hd (dropWhile P xs) \<in> set (dropWhile P xs)" using ne by simp
    ultimately show False using a by blast
  qed
  then show "\<forall>x \<in> set xs. P x" by (simp add: dropWhile_eq_Nil_conv)
next
  assume "\<forall>x \<in> set xs. P x"
  then show "\<forall>x \<in> set (dropWhile P xs). P x" by (meson set_dropWhileD)
qed

lemma js_trim_Nil_iff: "js_trim txt = [] \<longleftrightarrow> blank txt"
  by (simp add: js_trim_def blank_def dropWhile_eq_Nil_conv all_dropWhile_iff)

lemma js_includes_Nil [simp]: "js_includes [] (lit ''application/json'') = False"
  by simp

text \<open>
  C4. \<open>safeJson\<close> classifies a response in this order: status 204 or 202 gives the object
  \<open>{ _empty: true, _status }\<close> whatever the headers and the body; else an empty or blank body
  gives that object too; else a content type that is not declared JSON gives the object
  \<open>{ _raw: text, _status }\<close>, whose \<open>_raw\<close> is the body text itself; else a body that parses
  gives the parsed value; else a \<open>DecodeError\<close> is thrown whose message carries the first
  800 code units of the body at most (followed by an ellipsis when the body is longer).
\<close>

theorem safeJson_classifies:
  "(status res = 204 \<or> status res = 202 \<longrightarrow>
      safeJson E res
        = Inr (JObj [(lit ''_empty'', JBool True), (lit ''_status'', JNum (int (status res)))]))
   \<and> (status res \<noteq> 204 \<and> status res \<noteq> 202 \<and> res_text res = Inr body \<longrightarrow>
        (blank body \<longrightarrow>
           safeJson E res
             = Inr (JObj [(lit ''_empty'', JBool True), (lit ''_status'', JNum (int (status res)))]))
        \<and> (\<not> blank body \<and> \<not> declared_json res \<longrightarrow>
             safeJson E res
               = Inr (JObj [(lit ''_raw'', JStr body), (lit ''_status'', JNum (int (status res)))]))
        \<and> (\<not> blank body \<and> declared_json res \<and> JSON_parse E body = Inr v \<longrightarrow> safeJson E res = Inr v)
        \<and> (\<not> blank body \<and> declared_json res \<and> JSON_parse E body = Inl m \<longrightarrow>
             safeJson E res
               = Inl (DecodeError (lit ''Failed to parse JSON (status '' @ digits (status res)
                        @ lit ''). Body starts with:'' @ [10] @ take 800 body
                        @ (if length body > 800 then [8230] else [])))
             \<and> length (take 800 body) \<le> 800))"
proof -
  have nb: "\<not> blank body \<Longrightarrow> body \<noteq> []" by (auto simp: blank_def)
  show ?thesis
    by (auto simp: safeJson_def empty_body_def raw_body_def js_trim_Nil_iff declared_json_def
                   Let_def nb
             split: option.splits sum.splits)
qed

theorem safeJson_classifies_witness:
  \<open>safeJson env_json (resp 204 (lit ''No Content'') json_header (lit ''{"value":''))
       = Inr (JObj [(lit ''_empty'', JBool True), (lit ''_status'', JNum 204)])
   \<and> safeJson env_json (resp 200 (lit ''OK'') json_header (lit ''  ''))
       = Inr (JObj [(lit ''_empty'', JBool True), (lit ''_status'', JNum 200)])
   \<and> safeJson env_json (resp 200 (lit ''OK'') [(lit ''content-type'', lit ''text/plain'')] (lit ''hello''))
       = Inr (JObj [(lit ''_raw'', JStr (lit ''hello'')), (lit ''_status'', JNum 200)])
   \<and> safeJson env_json (resp 200 (lit ''OK'') json_header (lit ''{"value":[{"id":"a"}]}''))
       = Inr (JObj [(lit ''value'', JArr [JObj [(lit ''id'', JStr (lit ''a''))]])])
   \<and> safeJson env_json (resp 200 (lit ''OK'') json_header (lit ''{"value":''))
       = Inl (DecodeError (lit ''Failed to parse JSON (status '' @ digits 200
                @ lit ''). Body starts with:'' @ [10] @ lit ''{"value":''))\<close>
  using
    safeJson_classifies[where E = env_json and body = \<open>lit ''{"value":''\<close> and v = JNull
      and m = "lit ''Unexpected end of JSON input''"
      and res = \<open>resp 204 (lit ''No Content'') json_header (lit ''{"value":'')\<close>]
    safeJson_classifies[where E = env_json and body = "lit ''  ''" and v = JNull
      and m = "lit ''Unexpected end of JSON input''"
      and res = "resp 200 (lit ''OK'') json_header (lit ''  '')"]
    safeJson_classifies[where E = env_json and body = "lit ''hello''" and v = JNull
      and m = "lit ''Unexpected end of JSON input''"
      and res = "resp 200 (lit ''OK'') [(lit ''content-type'', lit ''text/plain'')] (lit ''hello'')"]
    safeJson_classifies[where E = env_json and body = \<open>lit ''{"value":[{"id":"a"}]}''\<close>
      and v = "JObj [(lit ''value'', JArr [JObj [(lit ''id'', JStr (lit ''a''))]])]"
      and m = "[]"
      and res = \<open>resp 200 (lit ''OK'') json_header (lit ''{"value":[{"id":"a"}]}'')\<close>]
    safeJson_classifies[where E = env_json and body = \<open>lit ''{"value":''\<close> and v = JNull
      and m = "lit ''Unexpected end of JSON input''"
      and res = \<open>resp 200 (lit ''OK'') json_header (lit ''{"value":'')\<close>]
  by (simp add: resp_def json_header_def env_json_def env_base_def parse_table_def parse_stub_def blank_def
        declared_json_def headers_get_def js_space_def lit_def)

section \<open>The pretty printer\<close>

text \<open>
  C6. For the object \<open>{transcriptId: "x", locale: "en-US", content: "hi"}\<close> the printer
  resolves the id to \<open>x\<close> (\<open>id\<close> is absent, \<open>transcriptId\<close> is next in the chain), the
  language to \<open>en-US\<close> (through \<open>locale\<close>) and the text to \<open>hi\<close> (through \<open>content\<close>); the
  created and speaker fields resolve to nothing, and the two lines printed show the id,
  the language and the text only.
\<close>

theorem prettyPrintTranscript_fallback_example:
  "pp_id fallback_example = Some (JStr (lit ''x''))
   \<and> pp_lang fallback_example = Some (JStr (lit ''en-US''))
   \<and> pp_text fallback_example = Some (JStr (lit ''hi''))
   \<and> pp_created fallback_example = None
   \<and> pp_speaker fallback_example = None
   \<and> prettyPrintTranscript fallback_example s
       = s\<lparr>trace := trace s @ [EvLog ([8226] @ lit '' id: x | lang: en-US''), EvLog (lit ''  hi'')]\<rparr>"
  by (simp add: fallback_example_def pp_id_def pp_lang_def pp_text_def pp_created_def pp_speaker_def
      prettyPrintTranscript_def pp_header_def coalesce_def tpl_def console_log_def emit_def
      List.map_filter_simps lit_def)

section \<open>The poller: what the catch block does\<close>

lemma http_error_message_echo:
  "res_text res = Inr body \<Longrightarrow> js_includes body sub \<Longrightarrow> js_includes (http_error_message res) sub"
  by (simp add: http_error_message_def js_includes_appendI2)

lemma getToken_state: "snd (getToken E s) = emit EvAcquire (s\<lparr>n_acquire := Suc (n_acquire s)\<rparr>)"
  by (simp add: getToken_def Let_def split: sum.splits option.splits)

lemma getToken_ok:
  "acquireTokenByClientCredential E (n_acquire s) = Inr (Some tok) \<Longrightarrow> tok \<noteq> [] \<Longrightarrow>
   getToken E s = (Inr tok, emit EvAcquire (s\<lparr>n_acquire := Suc (n_acquire s)\<rparr>))"
  by (simp add: getToken_def)

lemma or_empty [simp]: "(if m \<noteq> [] then m else []) = (m :: jsstring)"
  by simp

lemma run_catch_no_401:
  "\<not> js_includes (message err) (lit ''401'') \<Longrightarrow>
   run_catch E err P s = (None, P, console_warn (lit ''Poll error: '' @ message err) s)"
  by (simp add: run_catch_def)

lemma run_catch_401_ok:
  "js_includes (message err) (lit ''401'') \<Longrightarrow>
   getToken E (console_warn (lit ''401 from Graph. Refreshing token...'') s) = (Inr tok, s2) \<Longrightarrow>
   run_catch E err P s
     = (None, P\<lparr>token := tok, tokenAcquiredAt := Date_now_at E (n_now s2)\<rparr>, s2\<lparr>n_now := n_now s2 + 1\<rparr>)"
  by (simp add: run_catch_def Date_now_def)

lemma run_catch_401_fail:
  "js_includes (message err) (lit ''401'') \<Longrightarrow>
   getToken E (console_warn (lit ''401 from Graph. Refreshing token...'') s) = (Inl e, s2) \<Longrightarrow>
   run_catch E err P s = (Some e, P, s2)"
  by (simp add: run_catch_def)

lemma getToken_always:
  assumes "\<forall>k. \<exists>tok. acquireTokenByClientCredential E k = Inr (Some tok) \<and> tok \<noteq> []"
  shows "\<exists>tok. getToken E s = (Inr tok, emit EvAcquire (s\<lparr>n_acquire := Suc (n_acquire s)\<rparr>))"
proof -
  obtain tok where "acquireTokenByClientCredential E (n_acquire s) = Inr (Some tok)" "tok \<noteq> []"
    using assms by blast
  then show ?thesis by (auto simp: getToken_ok)
qed

lemma iteration_always:
  assumes "\<forall>k. \<exists>tok. acquireTokenByClientCredential E k = Inr (Some tok) \<and> tok \<noteq> []"
  shows "fst (iteration E P s) = None"
proof -
  obtain out P1 s1 where rt: "run_try E P s = (out, P1, s1)" by (metis prod_cases3)
  show ?thesis
  proof (cases out)
    case (Threw err)
    show ?thesis
    proof (cases "js_includes (message err) (lit ''401'')")
      case True
      obtain tok where "getToken E (console_warn (lit ''401 from Graph. Refreshing token...'') s1)
          = (Inr tok, emit EvAcquire ((console_warn (lit ''401 from Graph. Refreshing token...'') s1)
               \<lparr>n_acquire := Suc (n_acquire (console_warn (lit ''401 from Graph. Refreshing token...'') s1))\<rparr>))"
        using getToken_always[OF assms] by blast
      then show ?thesis
        using True by (simp add: iteration_def rt Threw run_catch_401_ok)
    next
      case False
      then show ?thesis by (simp add: iteration_def rt Threw run_catch_no_401)
    qed
  qed (simp_all add: iteration_def rt)
qed

lemma run_loop_always:
  assumes "\<forall>k. \<exists>tok. acquireTokenByClientCredential E k = Inr (Some tok) \<and> tok \<noteq> []"
  shows "fst (run_loop n E P s) = None"
proof (induction n arbitrary: P s)
  case 0
  then show ?case by simp
next
  case (Suc n)
  obtain r P1 s1 where it: "iteration E P s = (r, P1, s1)" by (metis prod_cases3)
  with iteration_always[OF assms, of P s] have "r = None" by simp
  then show ?case using Suc.IH by (simp add: it)
qed

lemma run_catch_seen: "run_catch E err P s = (r, P', s') \<Longrightarrow> seen P' = seen P"
  by (auto simp: run_catch_def split: if_splits prod.splits sum.splits)

section \<open>The poller: what one poll does to the state\<close>

lemma extends_with_refl [simp]: "extends_with good s s"
  by (simp add: extends_with_def)

lemma extends_with_trans:
  "extends_with good s s1 \<Longrightarrow> extends_with good s1 s2 \<Longrightarrow> extends_with good s s2"
  by (fastforce simp: extends_with_def)

lemma extends_with_emit: "good e \<Longrightarrow> extends_with good s (emit e s)"
  by (simp add: extends_with_def)

lemma extends_with_emit_after:
  "extends_with good s s1 \<Longrightarrow> good e \<Longrightarrow> extends_with good s (emit e s1)"
  by (fastforce simp: extends_with_def)

lemma extends_with_log:
  "extends_with (poll_event tok) s s1 \<Longrightarrow> extends_with (poll_event tok) s (console_log m s1)"
  "extends_with (poll_event tok) s s1 \<Longrightarrow> extends_with (poll_event tok) s (console_warn m s1)"
  "extends_with (poll_event tok) s s1 \<Longrightarrow> extends_with (poll_event tok) s (console_dir v s1)"
  "extends_with (poll_event tok) s s1 \<Longrightarrow> extends_with (poll_event tok) s (sleep w s1)"
  by (simp_all add: console_log_def console_warn_def console_dir_def sleep_def extends_with_emit_after)

lemma extends_with_fetch:
  "extends_with (poll_event tok) s (snd (fetch E url (request_options tok) s))"
  by (auto simp: fetch_def Let_def extends_with_def split: sum.splits)

lemma fetchWithRetry_loop_extends:
  "extends_with (poll_event tok) s
     (snd (fetchWithRetry_loop E url (request_options tok) maxAttempts attempt0 s))"
proof (induction E url "request_options tok" maxAttempts attempt0 s rule: fetchWithRetry_loop.induct)
  case (1 E url maxAttempts attempt0 s)
  obtain r s1 where f: "fetch E url (request_options tok) s = (r, s1)" by (metis surj_pair)
  have e1: "extends_with (poll_event tok) s s1"
    using extends_with_fetch[of tok s E url] by (simp add: f)
  show ?case
  proof (cases r)
    case (Inl e)
    then show ?thesis by (subst fetchWithRetry_loop.simps) (simp add: f e1)
  next
    case (Inr res)
    show ?thesis
    proof (cases "\<not> ok res \<and> (status res = 429 \<or> status res = 503) \<and> attempt0 + 1 < maxAttempts")
      case True
      let ?w = "retry_wait E res (attempt0 + 1)"
      let ?s2 = "console_warn (lit ''['' @ digits (status res) @ lit ''] throttled; retrying in ''
                                @ num_String ?w @ lit ''ms...'') s1"
      let ?s3 = "sleep ?w ?s2"
      have ih: "extends_with (poll_event tok) ?s3
                  (snd (fetchWithRetry_loop E url (request_options tok) maxAttempts (attempt0 + 1) ?s3))"
        using True by (intro "1.hyps"[OF refl f[symmetric] Inr]) simp_all
      have "extends_with (poll_event tok) s ?s3" by (intro extends_with_log e1)
      then have "extends_with (poll_event tok) s
                  (snd (fetchWithRetry_loop E url (request_options tok) maxAttempts (attempt0 + 1) ?s3))"
        using ih by (rule extends_with_trans)
      then show ?thesis
        using True by (subst fetchWithRetry_loop.simps) (simp add: f Inr Let_def)
    next
      case False
      then show ?thesis
        by (subst fetchWithRetry_loop.simps) (auto simp add: f Inr e1)
    qed
  qed
qed

lemma fetchWithRetry_extends:
  "fetchWithRetry E url (request_options tok) n s = (r, s') \<Longrightarrow> extends_with (poll_event tok) s s'"
  using fetchWithRetry_loop_extends[of tok s E url n 0] by (simp add: fetchWithRetry_def)

lemma listTranscripts_extends:
  "extends_with (poll_event tok) s (snd (listTranscripts E tok m s))"
  by (auto simp: listTranscripts_def Let_def extends_with_log
           dest: fetchWithRetry_extends split: sum.splits prod.splits)

lemma getTranscript_extends:
  "extends_with (poll_event tok) s (snd (getTranscript E tok m i s))"
  by (auto simp: getTranscript_def Let_def extends_with_log
           dest: fetchWithRetry_extends split: sum.splits prod.splits)

lemma prettyPrintTranscript_extends:
  "extends_with (poll_event tok) s s1 \<Longrightarrow> extends_with (poll_event tok) s (prettyPrintTranscript obj s1)"
  by (simp add: prettyPrintTranscript_def Let_def extends_with_log)


lemma process_items_skip:
  "skipped (seen P) t \<Longrightarrow> process_items E (t # ts) P s = process_items E ts P s"
  by (auto simp: skipped_def split: option.splits)

lemma process_items_new_fail:
  assumes "item_id t = Some i" "truthy (Some i)" "\<not> seen_has (seen P) i"
    and "getTranscript E (token P) (RTA_MEETING_ID E) i
           (prettyPrintTranscript t (console_log ([10] @ lit ''NEW transcript fragment:'') s))
         = (Inl e, s3)"
  shows "process_items E (t # ts) P s = (Some e, P\<lparr>seen := seen P @ [i]\<rparr>, s3)"
  using assms by (simp add: seen_add_def Let_def)

lemma print_detail_extends:
  "extends_with (poll_event tok) s s1 \<Longrightarrow> extends_with (poll_event tok) s (print_detail E i detail s1)"
  by (simp add: print_detail_def extends_with_log prettyPrintTranscript_extends)

lemma process_items_new_ok:
  assumes "item_id t = Some i" "truthy (Some i)" "\<not> seen_has (seen P) i"
    and "getTranscript E (token P) (RTA_MEETING_ID E) i
           (prettyPrintTranscript t (console_log ([10] @ lit ''NEW transcript fragment:'') s))
         = (Inr detail, s3)"
  shows "process_items E (t # ts) P s
           = process_items E ts (P\<lparr>seen := seen P @ [i]\<rparr>) (print_detail E i detail s3)"
  using assms by (simp add: seen_add_def Let_def)

declare process_items.simps [simp del]

lemma process_items_Nil [simp]: "process_items E [] P s = (None, P, s)"
  by (simp add: process_items.simps)

lemma seen_has_append: "seen_has sn i \<Longrightarrow> seen_has (sn @ [j]) i"
  by (simp add: seen_has_def)

lemma process_items_inv:
  "process_items E ts P s = (r, P', s') \<Longrightarrow>
     token P' = token P \<and> tokenAcquiredAt P' = tokenAcquiredAt P
     \<and> (\<forall>i. seen_has (seen P) i \<longrightarrow> seen_has (seen P') i)
     \<and> extends_with (poll_event (token P)) s s'"
proof (induction ts arbitrary: P s)
  case Nil
  then show ?case by simp
next
  case (Cons t ts)
  show ?case
  proof (cases "skipped (seen P) t")
    case True
    with Cons.prems have "process_items E ts P s = (r, P', s')"
      by (simp add: process_items_skip)
    then show ?thesis by (rule Cons.IH)
  next
    case False
    then obtain i where i: "item_id t = Some i" "truthy (Some i)" "\<not> seen_has (seen P) i"
      by (auto simp: skipped_def split: option.splits)
    let ?s2 = "prettyPrintTranscript t (console_log ([10] @ lit ''NEW transcript fragment:'') s)"
    let ?P1 = "P\<lparr>seen := seen P @ [i]\<rparr>"
    have e2: "extends_with (poll_event (token P)) s ?s2"
      by (intro prettyPrintTranscript_extends extends_with_log) simp
    obtain d s3 where g: "getTranscript E (token P) (RTA_MEETING_ID E) i ?s2 = (d, s3)"
      by (metis surj_pair)
    have "extends_with (poll_event (token P)) ?s2 s3"
      using getTranscript_extends[of "token P" ?s2 E "RTA_MEETING_ID E" i] unfolding g by simp
    with e2 have e3: "extends_with (poll_event (token P)) s s3"
      by (rule extends_with_trans)
    show ?thesis
    proof (cases d)
      case (Inl e)
      with process_items_new_fail[OF i, of E s e s3 ts] g Cons.prems
      have "r = Some e" "P' = ?P1" "s' = s3" by simp_all
      then show ?thesis using e3 by (simp add: seen_has_append)
    next
      case (Inr detail)
      define s4 where "s4 = print_detail E i detail s3"
      have s4: "process_items E (t # ts) P s = process_items E ts ?P1 s4"
               "extends_with (poll_event (token P)) s3 s4"
        using process_items_new_ok[OF i, of E s detail s3 ts] g Inr
        by (simp_all add: s4_def print_detail_extends)
      with Cons.prems have "process_items E ts ?P1 s4 = (r, P', s')" by simp
      from Cons.IH[OF this] have ih:
        "token P' = token P" "tokenAcquiredAt P' = tokenAcquiredAt P"
        "\<forall>j. seen_has (seen P @ [i]) j \<longrightarrow> seen_has (seen P') j"
        "extends_with (poll_event (token P)) s4 s'" by simp_all
      have "extends_with (poll_event (token P)) s s'"
        using e3 s4(2) ih(4) by (blast intro: extends_with_trans)
      then show ?thesis using ih by (simp add: seen_has_append)
    qed
  qed
qed





lemma run_poll_thrown:
  "listTranscripts E (token P) (RTA_MEETING_ID E) s = (Inl e, s1) \<Longrightarrow>
   run_poll E P s = (Threw e, P, s1)"
  by (simp add: run_poll_def)

lemma run_poll_marker:
  assumes "listTranscripts E (token P) (RTA_MEETING_ID E) s = (Inr lst, s1)"
    and "truthy (opt_get (Some lst) (lit ''_empty'')) \<or> truthy (opt_get (Some lst) (lit ''_raw''))"
  shows "\<exists>s2. run_poll E P s = (Continued, P, s2) \<and> extends_with (poll_event tok) s1 s2"
  using assms by (auto simp: run_poll_def extends_with_log)

lemma run_poll_items:
  assumes "listTranscripts E (token P) (RTA_MEETING_ID E) s = (Inr lst, s1)"
    and "\<not> truthy (opt_get (Some lst) (lit ''_empty''))"
    and "\<not> truthy (opt_get (Some lst) (lit ''_raw''))"
    and "process_items E (list_items lst) P
           (if VERBOSE E = lit ''1''
            then console_dir lst (console_log (lit ''~ list payload ~'') s1) else s1) = (r, P1, s3)"
  shows "run_poll E P s = ((case r of None \<Rightarrow> Completed | Some e \<Rightarrow> Threw e), P1, s3)"
  using assms by (simp add: run_poll_def Let_def split: option.splits)

text \<open>A poll keeps the token and its time stamp, forgets no identifier, reads no clock,
  acquires no token, and sends every request with the token it has.\<close>

lemma run_poll_from:
  assumes l: "listTranscripts E (token P) (RTA_MEETING_ID E) s = (r, s1)"
    and e1: "extends_with (poll_event (token P)) s0 s1"
    and rp: "run_poll E P s = (out, P', s')"
  shows "token P' = token P \<and> tokenAcquiredAt P' = tokenAcquiredAt P
         \<and> (\<forall>i. seen_has (seen P) i \<longrightarrow> seen_has (seen P') i)
         \<and> extends_with (poll_event (token P)) s0 s'"
proof (cases r)
  case (Inl e)
  with l rp e1 show ?thesis by (simp add: run_poll_thrown)
next
  case (Inr lst)
  show ?thesis
  proof (cases "truthy (opt_get (Some lst) (lit ''_empty'')) \<or> truthy (opt_get (Some lst) (lit ''_raw''))")
    case True
    from run_poll_marker[OF l[unfolded Inr] True, of "token P"] obtain s2 where
      "run_poll E P s = (Continued, P, s2)" "extends_with (poll_event (token P)) s1 s2" by blast
    with rp e1 show ?thesis by (auto intro: extends_with_trans)
  next
    case False
    let ?s2 = "if VERBOSE E = lit ''1''
               then console_dir lst (console_log (lit ''~ list payload ~'') s1) else s1"
    have e2: "extends_with (poll_event (token P)) s0 ?s2"
      using e1 by (simp add: extends_with_log)
    obtain r3 P3 s3 where p: "process_items E (list_items lst) P ?s2 = (r3, P3, s3)"
      by (metis prod_cases3)
    from process_items_inv[OF p] have inv:
      "token P3 = token P" "tokenAcquiredAt P3 = tokenAcquiredAt P"
      "\<forall>i. seen_has (seen P) i \<longrightarrow> seen_has (seen P3) i"
      "extends_with (poll_event (token P)) ?s2 s3" by simp_all
    have e3: "extends_with (poll_event (token P)) s0 s3"
      using e2 inv(4) by (rule extends_with_trans)
    have "run_poll E P s = ((case r3 of None \<Rightarrow> Completed | Some e \<Rightarrow> Threw e), P3, s3)"
      using False by (intro run_poll_items[OF l[unfolded Inr] _ _ p]) simp_all
    with rp have "P' = P3 \<and> s' = s3" by simp
    then show ?thesis using inv e3 by simp
  qed
qed

lemma run_poll_inv:
  assumes "run_poll E P s = (out, P', s')"
  shows "token P' = token P \<and> tokenAcquiredAt P' = tokenAcquiredAt P
         \<and> (\<forall>i. seen_has (seen P) i \<longrightarrow> seen_has (seen P') i)
         \<and> extends_with (poll_event (token P)) s s'"
proof -
  obtain r s1 where l: "listTranscripts E (token P) (RTA_MEETING_ID E) s = (r, s1)"
    by (metis surj_pair)
  have e1: "extends_with (poll_event (token P)) s s1"
    using listTranscripts_extends[of "token P" s E "RTA_MEETING_ID E"] by (simp add: l)
  show ?thesis using run_poll_from[OF l e1 assms] .
qed


section \<open>The script without \<open>safeJson\<close>: its loop over the items\<close>

declare process_items_index.simps [simp del]

lemma process_items_index_Nil [simp]: "process_items_index E [] P s = (None, P, s)"
  by (simp add: process_items_index.simps)

lemma process_items_index_null:
  "process_items_index E (JNull # ts) P s
     = (Some (TypeError (lit ''Cannot read properties of null (reading '' @ [39] @ lit ''id''
                          @ [39] @ lit '')'')), P, s)"
  by (simp add: process_items_index.simps)

lemma process_items_index_skip:
  "t \<noteq> JNull \<Longrightarrow> skipped (seen P) t \<Longrightarrow>
   process_items_index E (t # ts) P s = process_items_index E ts P s"
  by (auto simp: skipped_def process_items_index.simps split: option.splits)

lemma process_items_index_new:
  assumes "t \<noteq> JNull" "item_id t = Some i" "truthy (Some i)" "\<not> seen_has (seen P) i"
  shows "process_items_index E (t # ts) P s
           = process_items_index E ts (P\<lparr>seen := seen P @ [i]\<rparr>)
               (try_detail_index E (token P) i
                  (prettyPrintTranscript_index t
                     (console_log ([10] @ lit ''NEW transcript fragment detected:'') s)))"
  using assms by (simp add: process_items_index.simps seen_add_def Let_def)

lemma try_detail_index_fail:
  assumes "getTranscript_index E tok (RTA_MEETING_ID E) i s = (Inl e, s3)"
  shows "try_detail_index E tok i s
           = console_warn (lit ''Failed to fetch detail for '' @ js_String i @ lit '': ''
                           @ message e) s3"
  using assms by (simp add: try_detail_index_def)

text \<open>In this script no error of a detail request leaves the loop over the items: the loop
  ends with an error only at a \<open>null\<close> item.\<close>

lemma process_items_index_isolates:
  "JNull \<notin> set ts \<Longrightarrow> fst (process_items_index E ts P s) = None"
proof (induction ts arbitrary: P s)
  case Nil
  then show ?case by simp
next
  case (Cons t ts)
  then have t: "t \<noteq> JNull" and ts: "JNull \<notin> set ts" by auto
  show ?case
  proof (cases "skipped (seen P) t")
    case True
    then show ?thesis using t Cons.IH[OF ts] by (simp add: process_items_index_skip)
  next
    case False
    then obtain i where i: "item_id t = Some i" "truthy (Some i)" "\<not> seen_has (seen P) i"
      by (auto simp: skipped_def split: option.splits)
    have "process_items_index E (t # ts) P s
            = process_items_index E ts (P\<lparr>seen := seen P @ [i]\<rparr>)
               (try_detail_index E (token P) i
                  (prettyPrintTranscript_index t
                     (console_log ([10] @ lit ''NEW transcript fragment detected:'') s)))"
      using process_items_index_new[OF t i] .
    then show ?thesis using Cons.IH[OF ts] by simp
  qed
qed

lemma process_items_index_seen:
  "process_items_index E ts P s = (r, P', s') \<Longrightarrow> seen_has (seen P) i \<Longrightarrow> seen_has (seen P') i"
proof (induction ts arbitrary: P s)
  case Nil
  then show ?case by simp
next
  case (Cons t ts)
  show ?case
  proof (cases "t = JNull")
    case True
    with Cons.prems show ?thesis by (simp add: process_items_index_null)
  next
    case t: False
    show ?thesis
    proof (cases "skipped (seen P) t")
      case True
      with Cons t show ?thesis by (simp add: process_items_index_skip)
    next
      case False
      then obtain j where j: "item_id t = Some j" "truthy (Some j)" "\<not> seen_has (seen P) j"
        by (auto simp: skipped_def split: option.splits)
      have "process_items_index E ts (P\<lparr>seen := seen P @ [j]\<rparr>)
               (try_detail_index E (token P) j
                  (prettyPrintTranscript_index t
                     (console_log ([10] @ lit ''NEW transcript fragment detected:'') s))) = (r, P', s')"
        using process_items_index_new[OF t j, of E ts s] Cons.prems(1) by simp
      from Cons.IH[OF this] Cons.prems(2) show ?thesis by (simp add: seen_has_append)
    qed
  qed
qed

lemma process_items_index_ignores_seen:
  assumes "seen_has (seen Q) i"
  shows "process_items_index E items Q u
           = process_items_index E (filter (\<lambda>t. item_id t \<noteq> Some i) items) Q u"
  using assms
proof (induction items arbitrary: Q u)
  case Nil
  then show ?case by simp
next
  case (Cons t ts)
  show ?case
  proof (cases "t = JNull")
    case True
    then show ?thesis by (simp add: process_items_index_null item_id_def coalesce_def)
  next
    case t: False
    show ?thesis
    proof (cases "skipped (seen Q) t")
      case True
      then show ?thesis using t Cons
        by (cases "item_id t = Some i") (simp_all add: process_items_index_skip)
    next
      case False
      then obtain j where j: "item_id t = Some j" "truthy (Some j)" "\<not> seen_has (seen Q) j"
        by (auto simp: skipped_def split: option.splits)
      then have ne: "item_id t \<noteq> Some i" using Cons.prems by auto
      let ?Q1 = "Q\<lparr>seen := seen Q @ [j]\<rparr>"
      have q1: "seen_has (seen ?Q1) i" using Cons.prems by (simp add: seen_has_append)
      show ?thesis
        using ne Cons.IH[OF q1] process_items_index_new[OF t j, of E ts u]
          process_items_index_new[OF t j, of E "filter (\<lambda>t. item_id t \<noteq> Some i) ts" u]
        by simp
    qed
  qed
qed

lemma run_poll_index_seen:
  assumes "run_poll_index E P s = (out, P', s')" and "seen_has (seen P) i"
  shows "seen_has (seen P') i"
proof -
  obtain r s1 where l: "listTranscripts_index E (token P) (RTA_MEETING_ID E) s = (r, s1)"
    by (metis surj_pair)
  show ?thesis
  proof (cases r)
    case (Inl e)
    with assms l show ?thesis by (simp add: run_poll_index_def)
  next
    case (Inr lst)
    let ?s2 = "if VERBOSE E = lit ''1''
               then console_dir lst (console_log (lit ''~ list payload ~'') s1) else s1"
    obtain r3 P3 s3 where p: "process_items_index E (list_items lst) P ?s2 = (r3, P3, s3)"
      by (metis prod_cases3)
    have "P' = P3"
      using assms(1) l Inr p by (auto simp: run_poll_index_def Let_def split: option.splits)
    with process_items_index_seen[OF p assms(2)] show ?thesis by simp
  qed
qed

lemma run_try_index_seen:
  assumes "run_try_index E P s = (out, P', s')" and "seen_has (seen P) i"
  shows "seen_has (seen P') i"
proof -
  have "\<exists>Q t. run_poll_index E Q t = (out, P', s') \<and> seen Q = seen P \<or> P' = P"
    using assms(1)
    by (auto simp: run_try_index_def Date_now_def split: if_splits prod.splits sum.splits)
  then show ?thesis using run_poll_index_seen assms(2) by metis
qed

lemma iteration_index_seen:
  assumes "iteration_index E P s = (r, P', s')" and "seen_has (seen P) i"
  shows "seen_has (seen P') i"
proof -
  obtain out P1 s1 where rt: "run_try_index E P s = (out, P1, s1)" by (metis prod_cases3)
  have s1: "seen_has (seen P1) i" using run_try_index_seen[OF rt assms(2)] .
  show ?thesis
  proof (cases out)
    case (Threw err)
    obtain r2 P2 s2 where rc: "run_catch E err P1 s1 = (r2, P2, s2)" by (metis prod_cases3)
    have "seen P2 = seen P1" using run_catch_seen[OF rc] .
    moreover have "P' = P2" using assms(1) rt Threw rc
      by (auto simp: iteration_index_def split: option.splits)
    ultimately show ?thesis using s1 by simp
  qed (use assms(1) rt s1 in \<open>auto simp: iteration_index_def\<close>)
qed

lemma run_loop_index_seen:
  "run_loop_index n E P s = (r, P', s') \<Longrightarrow> seen_has (seen P) i \<Longrightarrow> seen_has (seen P') i"
proof (induction n arbitrary: P s)
  case 0
  then show ?case by simp
next
  case (Suc n)
  obtain r1 P1 s1 where it: "iteration_index E P s = (r1, P1, s1)" by (metis prod_cases3)
  have s1: "seen_has (seen P1) i" using iteration_index_seen[OF it Suc.prems(2)] .
  show ?case
  proof (cases r1)
    case None
    with Suc.prems(1) it have "run_loop_index n E P1 s1 = (r, P', s')" by simp
    from Suc.IH[OF this s1] show ?thesis .
  next
    case (Some e)
    with Suc.prems(1) it have "P' = P1" by simp
    with s1 show ?thesis by simp
  qed
qed

text \<open>
  The list has the fragments \<open>f1\<close> and \<open>f2\<close>, and the detail request for \<open>f1\<close> is answered
  500: the error is caught at the fragment and logged, and \<open>f2\<close> is processed in the same
  pass.
\<close>

lemma process_items_index_detail_error_is_caught:
  "process_items_index env_two [item_f1, item_f2] P0 s_listed
     = (None, P0\<lparr>seen := [JStr (lit ''f1''), JStr (lit ''f2'')]\<rparr>,
        \<lparr>n_acquire = 1, n_now = 2, n_fetch = 3,
         trace = [EvFetch list_url_m1 (request_options (lit ''token0'')),
                  EvLog ([10] @ lit ''NEW transcript fragment detected:''),
                  EvLog ([8226] @ lit '' id: f1''),
                  EvFetch (detail_url_m1 (lit ''f1'')) (request_options (lit ''token0'')),
                  EvWarn (lit ''Failed to fetch detail for f1: HTTP 500 Internal Server Error for ''
                          @ detail_url_m1 (lit ''f1'') @ [10] @ lit ''boom''),
                  EvLog ([10] @ lit ''NEW transcript fragment detected:''),
                  EvLog ([8226] @ lit '' id: f2''),
                  EvFetch (detail_url_m1 (lit ''f2'')) (request_options (lit ''token0'')),
                  EvLog (lit ''Detail snippet:''),
                  EvLog ([8226] @ lit '' id: f2''),
                  EvLog (lit ''  second'')]\<rparr>)"
  by (simp add: process_items_index_skip process_items_index_new skipped_def
        try_detail_index_def getTranscript_index_def res_json_def fetchWithRetry_index_def
        fetchWithRetry_index_loop_ok fetchWithRetry_index_loop_give_up
        prettyPrintTranscript_index_def pp_text_index_def http_error_message_index_def
        transcriptDetailUrl_def ok_def headers_get_def console_log_def console_warn_def
        console_dir_def emit_def pp_header_def pp_id_def pp_created_def pp_lang_def
        pp_speaker_def item_id_def coalesce_def tpl_def seen_has_def List.map_filter_simps
        Let_def env_two_def env_json_def env_base_def resp_def json_header_def parse_stub_def
        parse_table_def P0_def s_listed_def item_f1_def item_f2_def uri_unreserved_def
        list_url_m1_def detail_url_m1_def lit_def digits_eval)

section \<open>Running the script on a concrete environment\<close>

lemmas run_eval =
  run_def run_loop.simps iteration_def run_try_def run_catch_def run_poll_def list_items_def
  process_items.simps print_detail_def listTranscripts_def getTranscript_def transcriptsListUrl_def
  transcriptDetailUrl_def getToken_def Date_now_def fetchWithRetry_def
  fetchWithRetry_loop_ok fetchWithRetry_loop_give_up fetchWithRetry_loop_retry
  fetchWithRetry_loop_rejected safeJson_def ok_def headers_get_def
  console_log_def console_warn_def console_dir_def sleep_def emit_def
  prettyPrintTranscript_def pp_header_def pp_id_def pp_created_def pp_lang_def pp_speaker_def
  pp_text_def item_id_def coalesce_def tpl_def seen_has_def seen_add_def
  empty_body_def raw_body_def http_error_message_def retry_wait_def
  List.map_filter_simps Let_def

lemmas env_eval =
  env_base_def env_json_def env_fifty_def env_stale_def env_500_def env_echo_401_def
  env_401_def env_auth_fail_def env_two_def resp_def json_header_def parse_stub_def
  parse_table_def st0_def st1_def P0_def Number_digits_def uri_unreserved_def pct_def
  hex_digit_def js_space_def js_trim_def

section \<open>The poller: the age check\<close>








section \<open>The poller: errors of a pass\<close>

text \<open>
  What one pass does with an error thrown in its \<open>try\<close> block: without 401 in the message
  the error is logged; with it, \<open>getToken\<close> is called in the \<open>catch\<close> block, and the pass goes
  on when that call answers, while an error of that call leaves the loop. When the
  identity library answers every exchange, no number of passes ends the loop.
\<close>

lemma iteration_error_handling:
  "(run_try E P s = (Completed, P1, s1) \<or> run_try E P s = (Continued, P1, s1)
      \<longrightarrow> fst (iteration E P s) = None)
   \<and> (run_try E P s = (Threw err, P1, s1) \<and> \<not> js_includes (message err) (lit ''401'') \<longrightarrow>
        iteration E P s
          = (None, P1, sleep (Number E (POLL_MS E))
                         (console_warn (lit ''Poll error: '' @ message err) s1)))
   \<and> (run_try E P s = (Threw err, P1, s1) \<and> js_includes (message err) (lit ''401'')
        \<and> getToken E (console_warn (lit ''401 from Graph. Refreshing token...'') s1) = (Inr tok, s2) \<longrightarrow>
        iteration E P s
          = (None, P1\<lparr>token := tok, tokenAcquiredAt := Date_now_at E (n_now s2)\<rparr>,
             sleep (Number E (POLL_MS E)) (s2\<lparr>n_now := n_now s2 + 1\<rparr>)))
   \<and> (run_try E P s = (Threw err, P1, s1) \<and> js_includes (message err) (lit ''401'')
        \<and> getToken E (console_warn (lit ''401 from Graph. Refreshing token...'') s1) = (Inl e, s2) \<longrightarrow>
        iteration E P s = (Some e, P1, s2))
   \<and> ((\<forall>k. \<exists>tok. acquireTokenByClientCredential E k = Inr (Some tok) \<and> tok \<noteq> [])
        \<longrightarrow> fst (run_loop n E P s) = None)"
  by (auto simp: iteration_def run_catch_no_401 run_catch_401_ok run_catch_401_fail run_loop_always)


lemma iteration_error_handling_examples:
  "run_try env_401 P0 st1 = (Threw err_401, P0, s_listed)
   \<and> js_includes (message err_401) (lit ''401'')
   \<and> getToken env_401 (console_warn (lit ''401 from Graph. Refreshing token...'') s_listed)
       = (Inr (lit ''token1''), s_refreshed)
   \<and> iteration env_401 P0 st1
       = (None, P0\<lparr>token := lit ''token1'', tokenAcquiredAt := Date_now_at env_401 (n_now s_refreshed)\<rparr>,
          sleep (Number env_401 (POLL_MS env_401)) (s_refreshed\<lparr>n_now := n_now s_refreshed + 1\<rparr>))
   \<and> run_try env_auth_fail P0 st1 = (Threw err_401, P0, s_listed)
   \<and> getToken env_auth_fail (console_warn (lit ''401 from Graph. Refreshing token...'') s_listed)
       = (Inl (AuthError (lit ''invalid_client'')), s_refreshed)
   \<and> iteration env_auth_fail P0 st1 = (Some (AuthError (lit ''invalid_client'')), P0, s_refreshed)
   \<and> (\<forall>k. \<exists>tok. acquireTokenByClientCredential env_401 k = Inr (Some tok) \<and> tok \<noteq> [])
   \<and> fst (run_loop 3 env_401 P0 st1) = None"
proof -
  note ev = run_eval env_eval list_url_m1_def s_listed_def s_refreshed_def err_401_def
    lit_def digits_eval
  have a1: "run_try env_401 P0 st1 = (Threw err_401, P0, s_listed)"
    by (simp add: ev)
  have a2: "js_includes (message err_401) (lit ''401'')"
    by (simp add: err_401_def lit_def)
  have a3: "getToken env_401 (console_warn (lit ''401 from Graph. Refreshing token...'') s_listed)
              = (Inr (lit ''token1''), s_refreshed)"
    by (simp add: ev)
  have b1: "run_try env_auth_fail P0 st1 = (Threw err_401, P0, s_listed)"
    by (simp add: ev)
  have b3: "getToken env_auth_fail (console_warn (lit ''401 from Graph. Refreshing token...'') s_listed)
              = (Inl (AuthError (lit ''invalid_client'')), s_refreshed)"
    by (simp add: ev)
  have c1: "\<forall>k. \<exists>tok. acquireTokenByClientCredential env_401 k = Inr (Some tok) \<and> tok \<noteq> []"
    by (simp add: env_401_def env_base_def)
  have r1: "iteration env_401 P0 st1
       = (None, P0\<lparr>token := lit ''token1'', tokenAcquiredAt := Date_now_at env_401 (n_now s_refreshed)\<rparr>,
          sleep (Number env_401 (POLL_MS env_401)) (s_refreshed\<lparr>n_now := n_now s_refreshed + 1\<rparr>))"
    using iteration_error_handling[where E = env_401 and P = P0 and s = st1 and ?P1.0 = P0
        and ?s1.0 = s_listed and err = err_401 and tok = "lit ''token1''" and ?s2.0 = s_refreshed]
      a1 a2 a3 by blast
  have r2: "iteration env_auth_fail P0 st1 = (Some (AuthError (lit ''invalid_client'')), P0, s_refreshed)"
    using iteration_error_handling[where E = env_auth_fail and P = P0 and s = st1 and ?P1.0 = P0
        and ?s1.0 = s_listed and err = err_401 and e = "AuthError (lit ''invalid_client'')"
        and ?s2.0 = s_refreshed]
      b1 a2 b3 by blast
  have r3: "fst (run_loop 3 env_401 P0 st1) = None"
    using iteration_error_handling[where E = env_401 and P = P0 and s = st1 and n = 3] c1 by blast
  show ?thesis using a1 a2 a3 b1 b3 c1 r1 r2 r3 by (intro conjI)
qed

text \<open>
  C7. The script guards a pass against its errors, an error of the credential exchange
  among them: the exchange at the age check is inside the \<open>try\<close> block, and when it
  fails the error is logged and the loop goes on. The exchange in the \<open>catch\<close> block
  (\<open>401? try to refresh once\<close>) is outside every \<open>try\<close>: when the server answers 401 and
  the identity library then rejects the exchange, the first pass ends the loop, \<open>run()\<close>
  rejects with the error of the exchange, and the process exits with code 1.
\<close>

theorem run_failed_refresh_ends_process:
  "run (Suc 0) env_auth_fail st0
     = (Inl (AuthError (lit ''invalid_client'')),
        \<lparr>n_acquire = 2, n_now = 2, n_fetch = 1,
         trace = [EvLog (lit ''== Microsoft Graph RTA Transcript Poller ==''),
                  EvLog (lit ''Meeting: m1''),
                  EvLog (lit ''Interval: 2000 ms''),
                  EvAcquire,
                  EvFetch list_url_m1 (request_options (lit ''token0'')),
                  EvWarn (lit ''401 from Graph. Refreshing token...''),
                  EvAcquire]\<rparr>)
   \<and> fst (main (Suc 0) env_auth_fail st0) = Some 1
   \<and> run (Suc (Suc 0)) env_stale_fail st0
     = (Inr \<lparr>token = lit ''token0'', tokenAcquiredAt = 0, seen = []\<rparr>,
        \<lparr>n_acquire = 3, n_now = 3, n_fetch = 0,
         trace = [EvLog (lit ''== Microsoft Graph RTA Transcript Poller ==''),
                  EvLog (lit ''Meeting: m1''),
                  EvLog (lit ''Interval: 2000 ms''),
                  EvAcquire,
                  EvAcquire,
                  EvWarn (lit ''Poll error: invalid_client''),
                  EvSleep (Some 2000),
                  EvAcquire,
                  EvWarn (lit ''Poll error: invalid_client''),
                  EvSleep (Some 2000)]\<rparr>)
   \<and> fst (main (Suc (Suc 0)) env_stale_fail st0) = None"
  by (simp add: main_def run_eval env_eval env_stale_fail_def list_url_m1_def lit_def digits_eval)

lemma run_catch_refresh:
  "\<exists>r P2 s2. run_catch E err P1 s1 = (r, P2, s2)
      \<and> n_acquire s2 = n_acquire s1 + (if js_includes (message err) (lit ''401'') then 1 else 0)
      \<and> (\<not> js_includes (message err) (lit ''401'') \<longrightarrow>
             r = None \<and> token P2 = token P1 \<and> tokenAcquiredAt P2 = tokenAcquiredAt P1)
      \<and> (js_includes (message err) (lit ''401'')
           \<and> acquireTokenByClientCredential E (n_acquire s1) = Inr (Some tok) \<and> tok \<noteq> [] \<longrightarrow>
             r = None \<and> token P2 = tok \<and> tokenAcquiredAt P2 = Date_now_at E (n_now s1))"
proof (cases "js_includes (message err) (lit ''401'')")
  case False
  then show ?thesis by (simp add: run_catch_no_401 console_warn_def)
next
  case True
  let ?sw = "console_warn (lit ''401 from Graph. Refreshing token...'') s1"
  obtain g s2 where g: "getToken E ?sw = (g, s2)" by (metis surj_pair)
  have s2: "s2 = emit EvAcquire (?sw\<lparr>n_acquire := Suc (n_acquire ?sw)\<rparr>)"
    using getToken_state[of E ?sw] g by simp
  show ?thesis
  proof (cases g)
    case (Inl e)
    have "\<not> (acquireTokenByClientCredential E (n_acquire s1) = Inr (Some tok) \<and> tok \<noteq> [])"
      using getToken_ok[of E ?sw tok] g Inl by (auto simp: console_warn_def)
    then show ?thesis
      using True g Inl s2 by (simp add: run_catch_401_fail console_warn_def)
  next
    case (Inr t)
    have "acquireTokenByClientCredential E (n_acquire s1) = Inr (Some tok) \<and> tok \<noteq> [] \<Longrightarrow> t = tok"
      using getToken_ok[of E ?sw tok] g Inr by (auto simp: console_warn_def)
    then show ?thesis
      using True g Inr s2 by (auto simp add: run_catch_401_ok console_warn_def)
  qed
qed

lemma after_catch_refresh:
  assumes "it = (case run_catch E err P1 s1 of
                   (Some e, P2, s2) \<Rightarrow> (Some e, P2, s2)
                 | (None, P2, s2) \<Rightarrow> (None, P2, sleep w s2))"
  shows "\<exists>r P2 s2. it = (r, P2, s2)
      \<and> n_acquire s2 = n_acquire s1 + (if js_includes (message err) (lit ''401'') then 1 else 0)
      \<and> (\<not> js_includes (message err) (lit ''401'') \<longrightarrow>
             r = None \<and> token P2 = token P1 \<and> tokenAcquiredAt P2 = tokenAcquiredAt P1)
      \<and> (js_includes (message err) (lit ''401'')
           \<and> acquireTokenByClientCredential E (n_acquire s1) = Inr (Some tok) \<and> tok \<noteq> [] \<longrightarrow>
             r = None \<and> token P2 = tok \<and> tokenAcquiredAt P2 = Date_now_at E (n_now s1))"
proof -
  from run_catch_refresh[of E err P1 s1 tok] obtain r P2 s2 where
    rc: "run_catch E err P1 s1 = (r, P2, s2)"
    and a: "n_acquire s2 = n_acquire s1 + (if js_includes (message err) (lit ''401'') then 1 else 0)"
    and b: "\<not> js_includes (message err) (lit ''401'') \<longrightarrow>
             r = None \<and> token P2 = token P1 \<and> tokenAcquiredAt P2 = tokenAcquiredAt P1"
    and c: "js_includes (message err) (lit ''401'')
           \<and> acquireTokenByClientCredential E (n_acquire s1) = Inr (Some tok) \<and> tok \<noteq> [] \<longrightarrow>
             r = None \<and> token P2 = tok \<and> tokenAcquiredAt P2 = Date_now_at E (n_now s1)"
    by blast
  show ?thesis
  proof (cases r)
    case None
    with assms rc have "it = (None, P2, sleep w s2)" by simp
    moreover have "n_acquire (sleep w s2) = n_acquire s2" by (simp add: sleep_def)
    ultimately show ?thesis using a b c None by auto
  next
    case (Some e)
    with assms rc have "it = (Some e, P2, s2)" by simp
    then show ?thesis using a b c Some by auto
  qed
qed

text \<open>
  C9. For an error thrown out of the \<open>try\<close> block of a pass, in either script, the \<open>catch\<close>
  block calls \<open>getToken\<close> exactly when the message of the error contains \<open>401\<close> somewhere,
  and not otherwise: without it the token and its time stamp stay as they are; with it,
  and an exchange that answers, they are replaced. The message of the error that
  \<open>fetchWithRetry\<close> throws ends with the body of the response, and in \<open>src/index.js\<close> it
  names the URL too, so a body or a URL that mentions 401 is enough.
\<close>

theorem refresh_iff_401:
  "(run_try E P s = (Threw err, P1, s1) \<longrightarrow>
      (\<exists>r P2 s2. iteration E P s = (r, P2, s2)
          \<and> n_acquire s2 = n_acquire s1 + (if js_includes (message err) (lit ''401'') then 1 else 0)
          \<and> (\<not> js_includes (message err) (lit ''401'') \<longrightarrow>
                 r = None \<and> token P2 = token P1 \<and> tokenAcquiredAt P2 = tokenAcquiredAt P1)
          \<and> (js_includes (message err) (lit ''401'')
               \<and> acquireTokenByClientCredential E (n_acquire s1) = Inr (Some tok) \<and> tok \<noteq> [] \<longrightarrow>
                 r = None \<and> token P2 = tok \<and> tokenAcquiredAt P2 = Date_now_at E (n_now s1))))
   \<and> (run_try_index E P s = (Threw err, P1, s1) \<longrightarrow>
      (\<exists>r P2 s2. iteration_index E P s = (r, P2, s2)
          \<and> n_acquire s2 = n_acquire s1 + (if js_includes (message err) (lit ''401'') then 1 else 0)
          \<and> (\<not> js_includes (message err) (lit ''401'') \<longrightarrow>
                 r = None \<and> token P2 = token P1 \<and> tokenAcquiredAt P2 = tokenAcquiredAt P1)
          \<and> (js_includes (message err) (lit ''401'')
               \<and> acquireTokenByClientCredential E (n_acquire s1) = Inr (Some tok) \<and> tok \<noteq> [] \<longrightarrow>
                 r = None \<and> token P2 = tok \<and> tokenAcquiredAt P2 = Date_now_at E (n_now s1))))
   \<and> (res_text res = Inr body \<and> js_includes body (lit ''401'') \<longrightarrow>
         js_includes (message (HttpError (http_error_message res))) (lit ''401'')
         \<and> js_includes (message (HttpError (http_error_message_index res url))) (lit ''401''))
   \<and> (js_includes url (lit ''401'') \<longrightarrow>
         js_includes (message (HttpError (http_error_message_index res url))) (lit ''401''))"
proof (intro conjI impI)
  assume rt: "run_try E P s = (Threw err, P1, s1)"
  have "iteration E P s = (case run_catch E err P1 s1 of
                   (Some e, P2, s2) \<Rightarrow> (Some e, P2, s2)
                 | (None, P2, s2) \<Rightarrow> (None, P2, sleep (Number E (POLL_MS E)) s2))"
    by (simp add: iteration_def rt split: prod.splits option.splits)
  from after_catch_refresh[OF this]
  show "\<exists>r P2 s2. iteration E P s = (r, P2, s2)
          \<and> n_acquire s2 = n_acquire s1 + (if js_includes (message err) (lit ''401'') then 1 else 0)
          \<and> (\<not> js_includes (message err) (lit ''401'') \<longrightarrow>
                 r = None \<and> token P2 = token P1 \<and> tokenAcquiredAt P2 = tokenAcquiredAt P1)
          \<and> (js_includes (message err) (lit ''401'')
               \<and> acquireTokenByClientCredential E (n_acquire s1) = Inr (Some tok) \<and> tok \<noteq> [] \<longrightarrow>
                 r = None \<and> token P2 = tok \<and> tokenAcquiredAt P2 = Date_now_at E (n_now s1))" .
next
  assume rt: "run_try_index E P s = (Threw err, P1, s1)"
  have "iteration_index E P s = (case run_catch E err P1 s1 of
                   (Some e, P2, s2) \<Rightarrow> (Some e, P2, s2)
                 | (None, P2, s2) \<Rightarrow> (None, P2, sleep (Number E (POLL_MS E)) s2))"
    by (simp add: iteration_index_def rt split: prod.splits option.splits)
  from after_catch_refresh[OF this]
  show "\<exists>r P2 s2. iteration_index E P s = (r, P2, s2)
          \<and> n_acquire s2 = n_acquire s1 + (if js_includes (message err) (lit ''401'') then 1 else 0)
          \<and> (\<not> js_includes (message err) (lit ''401'') \<longrightarrow>
                 r = None \<and> token P2 = token P1 \<and> tokenAcquiredAt P2 = tokenAcquiredAt P1)
          \<and> (js_includes (message err) (lit ''401'')
               \<and> acquireTokenByClientCredential E (n_acquire s1) = Inr (Some tok) \<and> tok \<noteq> [] \<longrightarrow>
                 r = None \<and> token P2 = tok \<and> tokenAcquiredAt P2 = Date_now_at E (n_now s1))" .
next
  assume "res_text res = Inr body \<and> js_includes body (lit ''401'')"
  then show "js_includes (message (HttpError (http_error_message res))) (lit ''401'')"
    by (simp add: http_error_message_echo)
next
  assume "res_text res = Inr body \<and> js_includes body (lit ''401'')"
  then show "js_includes (message (HttpError (http_error_message_index res url))) (lit ''401'')"
    by (simp add: http_error_message_index_echo)
next
  assume "js_includes url (lit ''401'')"
  then show "js_includes (message (HttpError (http_error_message_index res url))) (lit ''401'')"
    by (simp add: http_error_message_index_echo)
qed

theorem refresh_iff_401_witness:
  "run_try env_echo_401 P0 st1 = (Threw err_echo_401, P0, s_listed)
   \<and> js_includes (message err_echo_401) (lit ''401'')
   \<and> (\<exists>r P2 s2. iteration env_echo_401 P0 st1 = (r, P2, s2)
          \<and> n_acquire s2 = n_acquire s_listed + 1
          \<and> r = None \<and> token P2 = lit ''token1''
          \<and> tokenAcquiredAt P2 = Date_now_at env_echo_401 (n_now s_listed))
   \<and> run_try env_500 P0 st1
       = (Threw (HttpError (lit ''HTTP 500 Internal Server Error'' @ [10] @ lit ''boom'')), P0, s_listed)
   \<and> \<not> js_includes (message (HttpError (lit ''HTTP 500 Internal Server Error'' @ [10] @ lit ''boom'')))
         (lit ''401'')
   \<and> (\<exists>r P2 s2. iteration env_500 P0 st1 = (r, P2, s2)
          \<and> n_acquire s2 = n_acquire s_listed
          \<and> r = None \<and> token P2 = token P0 \<and> tokenAcquiredAt P2 = tokenAcquiredAt P0)
   \<and> js_includes (message (HttpError (http_error_message_index
         (resp 404 (lit ''Not Found'') [] []) (detail_url_m1 (lit ''a401''))))) (lit ''401'')"
proof -
  note ev = run_eval env_eval list_url_m1_def s_listed_def s_refreshed_def err_echo_401_def
    lit_def digits_eval
  have a1: "run_try env_echo_401 P0 st1 = (Threw err_echo_401, P0, s_listed)"
    by (simp add: ev)
  have a2: "js_includes (message err_echo_401) (lit ''401'')"
    by (simp add: err_echo_401_def lit_def)
  have a3: "acquireTokenByClientCredential env_echo_401 (n_acquire s_listed) = Inr (Some (lit ''token1''))"
    by (simp add: ev)
  have b1: "run_try env_500 P0 st1
       = (Threw (HttpError (lit ''HTTP 500 Internal Server Error'' @ [10] @ lit ''boom'')), P0, s_listed)"
    by (simp add: ev)
  have b2: "\<not> js_includes (message (HttpError (lit ''HTTP 500 Internal Server Error'' @ [10] @ lit ''boom'')))
               (lit ''401'')"
    by (simp add: lit_def)
  have c1: "js_includes (detail_url_m1 (lit ''a401'')) (lit ''401'')"
    by (simp add: detail_url_m1_def js_includes_appendI2 lit_def)
  have r1: "\<exists>r P2 s2. iteration env_echo_401 P0 st1 = (r, P2, s2)
          \<and> n_acquire s2 = n_acquire s_listed + 1
          \<and> r = None \<and> token P2 = lit ''token1''
          \<and> tokenAcquiredAt P2 = Date_now_at env_echo_401 (n_now s_listed)"
    using refresh_iff_401[where E = env_echo_401 and P = P0 and s = st1 and err = err_echo_401
        and ?P1.0 = P0 and ?s1.0 = s_listed and tok = "lit ''token1''"] a1 a2 a3
    by auto
  have r2: "\<exists>r P2 s2. iteration env_500 P0 st1 = (r, P2, s2)
          \<and> n_acquire s2 = n_acquire s_listed
          \<and> r = None \<and> token P2 = token P0 \<and> tokenAcquiredAt P2 = tokenAcquiredAt P0"
    using refresh_iff_401[where E = env_500 and P = P0 and s = st1 and ?P1.0 = P0
        and ?s1.0 = s_listed
        and err = "HttpError (lit ''HTTP 500 Internal Server Error'' @ [10] @ lit ''boom'')"] b1 b2
    by auto
  have r3: "js_includes (message (HttpError (http_error_message_index
         (resp 404 (lit ''Not Found'') [] []) (detail_url_m1 (lit ''a401''))))) (lit ''401'')"
    using refresh_iff_401[where url = "detail_url_m1 (lit ''a401'')"
        and res = "resp 404 (lit ''Not Found'') [] []"] c1
    by blast
  show ?thesis using a1 a2 b1 b2 r1 r2 r3 by (intro conjI)
qed

section \<open>The poller: the set of seen identifiers\<close>





text \<open>An identifier that is an array or an object is compared by reference, and is new
  every time it is presented.\<close>

lemma markIfNew_object: "\<not> is_primitive i \<Longrightarrow> fst (markIfNew sn i) = True"
  by (simp add: markIfNew_def seen_has_def)



lemma run_try_seen:
  assumes "run_try E P s = (out, P', s')" and "seen_has (seen P) i"
  shows "seen_has (seen P') i"
proof -
  have "\<exists>Q t. run_poll E Q t = (out, P', s') \<and> seen Q = seen P \<or> P' = P"
    using assms(1)
    by (auto simp: run_try_def Date_now_def split: if_splits prod.splits sum.splits)
  then show ?thesis using run_poll_inv assms(2) by metis
qed

lemma iteration_seen:
  assumes "iteration E P s = (r, P', s')" and "seen_has (seen P) i"
  shows "seen_has (seen P') i"
proof -
  obtain out P1 s1 where rt: "run_try E P s = (out, P1, s1)" by (metis prod_cases3)
  have s1: "seen_has (seen P1) i" using run_try_seen[OF rt assms(2)] .
  show ?thesis
  proof (cases out)
    case (Threw err)
    obtain r2 P2 s2 where rc: "run_catch E err P1 s1 = (r2, P2, s2)" by (metis prod_cases3)
    have "seen P2 = seen P1" using run_catch_seen[OF rc] .
    moreover have "P' = P2" using assms(1) rt Threw rc
      by (auto simp: iteration_def split: option.splits)
    ultimately show ?thesis using s1 by simp
  qed (use assms(1) rt s1 in \<open>auto simp: iteration_def\<close>)
qed

lemma run_loop_seen:
  "run_loop n E P s = (r, P', s') \<Longrightarrow> seen_has (seen P) i \<Longrightarrow> seen_has (seen P') i"
proof (induction n arbitrary: P s)
  case 0
  then show ?case by simp
next
  case (Suc n)
  obtain r1 P1 s1 where it: "iteration E P s = (r1, P1, s1)" by (metis prod_cases3)
  have s1: "seen_has (seen P1) i" using iteration_seen[OF it Suc.prems(2)] .
  show ?case
  proof (cases r1)
    case None
    with Suc.prems(1) it have "run_loop n E P1 s1 = (r, P', s')" by simp
    from Suc.IH[OF this s1] show ?thesis .
  next
    case (Some e)
    with Suc.prems(1) it have "P' = P1" by simp
    with s1 show ?thesis by simp
  qed
qed


lemma skipped_mono:
  "(\<forall>i. seen_has sn i \<longrightarrow> seen_has sn' i) \<Longrightarrow> skipped sn t \<Longrightarrow> skipped sn' t"
  by (auto simp: skipped_def split: option.splits)

lemma process_items_filter:
  assumes "\<forall>t. \<not> keep t \<longrightarrow> skipped (seen P) t"
  shows "process_items E ts P s = process_items E (filter keep ts) P s"
  using assms
proof (induction ts arbitrary: P s)
  case Nil
  then show ?case by simp
next
  case (Cons t ts)
  show ?case
  proof (cases "skipped (seen P) t")
    case True
    then show ?thesis using Cons by (cases "keep t") (simp_all add: process_items_skip)
  next
    case False
    then have k: "keep t" using Cons.prems by blast
    from False obtain i where i: "item_id t = Some i" "truthy (Some i)" "\<not> seen_has (seen P) i"
      by (auto simp: skipped_def split: option.splits)
    let ?s2 = "prettyPrintTranscript t (console_log ([10] @ lit ''NEW transcript fragment:'') s)"
    let ?P1 = "P\<lparr>seen := seen P @ [i]\<rparr>"
    have mono: "\<forall>t. \<not> keep t \<longrightarrow> skipped (seen ?P1) t"
      using Cons.prems skipped_mono[of "seen P" "seen P @ [i]"] by (simp add: seen_has_append)
    obtain d s3 where g: "getTranscript E (token P) (RTA_MEETING_ID E) i ?s2 = (d, s3)"
      by (metis surj_pair)
    show ?thesis
    proof (cases d)
      case (Inl e)
      then show ?thesis
        using k process_items_new_fail[OF i, of E s e s3] g by simp
    next
      case (Inr detail)
      have a: "process_items E (t # ts) P s = process_items E ts ?P1 (print_detail E i detail s3)"
        using process_items_new_ok[OF i, of E s detail s3 ts] g Inr by simp
      have b: "process_items E (t # filter keep ts) P s
              = process_items E (filter keep ts) ?P1 (print_detail E i detail s3)"
        using process_items_new_ok[OF i, of E s detail s3 "filter keep ts"] g Inr by simp
      show ?thesis using k a b Cons.IH[OF mono] by simp
    qed
  qed
qed

lemma process_items_ignores_seen:
  assumes "seen_has (seen Q) i"
  shows "process_items E items Q u = process_items E (filter (\<lambda>t. item_id t \<noteq> Some i) items) Q u"
  using assms by (intro process_items_filter) (simp add: skipped_def)




text \<open>
  C10. The identifier of a new fragment is put into the set before its detail is
  requested: whether the request then fails, or the detail is the empty or the raw marker,
  or a parsed body, the set holds the identifier afterwards. It holds it through every
  later pass, and a list processed with the identifier in the set is processed as if the
  items that carry it were not there, so the detail is not requested again. In
  \<open>src/index.js\<close> the insertion precedes the inner \<open>try\<close> in the same way.
\<close>

theorem seen_before_detail_fetch:
  assumes "is_primitive i" and "item_id t = Some i" and "truthy (Some i)"
    and "\<not> seen_has (seen P) i"
  shows "(\<exists>r P1 s1. process_items E (t # ts) P s = (r, P1, s1) \<and> seen_has (seen P1) i)
    \<and> (getTranscript E (token P) (RTA_MEETING_ID E) i
          (prettyPrintTranscript t (console_log ([10] @ lit ''NEW transcript fragment:'') s))
          = (Inl e, s3) \<longrightarrow>
        process_items E (t # ts) P s = (Some e, P\<lparr>seen := seen P @ [i]\<rparr>, s3))
    \<and> (getTranscript E (token P) (RTA_MEETING_ID E) i
          (prettyPrintTranscript t (console_log ([10] @ lit ''NEW transcript fragment:'') s))
          = (Inr detail, s3) \<longrightarrow>
        process_items E (t # ts) P s
          = process_items E ts (P\<lparr>seen := seen P @ [i]\<rparr>) (print_detail E i detail s3))
    \<and> (seen_has (seen Q) i \<and> iteration E Q u = (r', Q', u') \<longrightarrow> seen_has (seen Q') i)
    \<and> (seen_has (seen Q) i \<and> run_loop n E Q u = (r', Q', u') \<longrightarrow> seen_has (seen Q') i)
    \<and> (seen_has (seen Q) i \<longrightarrow>
          process_items E items Q u
            = process_items E (filter (\<lambda>t. item_id t \<noteq> Some i) items) Q u)
    \<and> process_items_index E (t # ts) P s
          = process_items_index E ts (P\<lparr>seen := seen P @ [i]\<rparr>)
              (try_detail_index E (token P) i
                 (prettyPrintTranscript_index t
                    (console_log ([10] @ lit ''NEW transcript fragment detected:'') s)))
    \<and> (seen_has (seen Q) i \<and> iteration_index E Q u = (r', Q', u') \<longrightarrow> seen_has (seen Q') i)
    \<and> (seen_has (seen Q) i \<and> run_loop_index n E Q u = (r', Q', u') \<longrightarrow> seen_has (seen Q') i)
    \<and> (seen_has (seen Q) i \<longrightarrow>
          process_items_index E items Q u
            = process_items_index E (filter (\<lambda>t. item_id t \<noteq> Some i) items) Q u)"
proof (intro conjI impI)
  let ?s2 = "prettyPrintTranscript t (console_log ([10] @ lit ''NEW transcript fragment:'') s)"
  let ?P1 = "P\<lparr>seen := seen P @ [i]\<rparr>"
  have in1: "seen_has (seen ?P1) i" using assms(1) by (simp add: seen_has_def)
  show "\<exists>r P1 s1. process_items E (t # ts) P s = (r, P1, s1) \<and> seen_has (seen P1) i"
  proof -
    obtain r P1 s1 where p: "process_items E (t # ts) P s = (r, P1, s1)" by (metis prod_cases3)
    obtain d s3 where g: "getTranscript E (token P) (RTA_MEETING_ID E) i ?s2 = (d, s3)"
      by (metis surj_pair)
    have "seen_has (seen P1) i"
    proof (cases d)
      case (Inl e)
      with process_items_new_fail[OF assms(2-4), of E s e s3 ts] p g have "P1 = ?P1" by simp
      with in1 show ?thesis by simp
    next
      case (Inr detail)
      with process_items_new_ok[OF assms(2-4), of E s detail s3 ts] p g
      have "process_items E ts ?P1 (print_detail E i detail s3) = (r, P1, s1)" by simp
      from process_items_inv[OF this] in1 show ?thesis by blast
    qed
    with p show ?thesis by blast
  qed
  show "process_items E (t # ts) P s = (Some e, ?P1, s3)"
    if "getTranscript E (token P) (RTA_MEETING_ID E) i ?s2 = (Inl e, s3)"
    using process_items_new_fail[OF assms(2-4) that] .
  show "process_items E (t # ts) P s = process_items E ts ?P1 (print_detail E i detail s3)"
    if "getTranscript E (token P) (RTA_MEETING_ID E) i ?s2 = (Inr detail, s3)"
    using process_items_new_ok[OF assms(2-4) that] .
  show "seen_has (seen Q') i" if "seen_has (seen Q) i \<and> iteration E Q u = (r', Q', u')"
    using that iteration_seen by blast
  show "seen_has (seen Q') i" if "seen_has (seen Q) i \<and> run_loop n E Q u = (r', Q', u')"
    using that run_loop_seen by blast
  show "process_items E items Q u
            = process_items E (filter (\<lambda>t. item_id t \<noteq> Some i) items) Q u"
    if "seen_has (seen Q) i"
    using that by (rule process_items_ignores_seen)
  have "t \<noteq> JNull" using assms(2) by (auto simp: item_id_def coalesce_def)
  then show "process_items_index E (t # ts) P s
          = process_items_index E ts ?P1
              (try_detail_index E (token P) i
                 (prettyPrintTranscript_index t
                    (console_log ([10] @ lit ''NEW transcript fragment detected:'') s)))"
    using assms(2-4) by (rule process_items_index_new)
  show "seen_has (seen Q') i" if "seen_has (seen Q) i \<and> iteration_index E Q u = (r', Q', u')"
    using that iteration_index_seen by blast
  show "seen_has (seen Q') i" if "seen_has (seen Q) i \<and> run_loop_index n E Q u = (r', Q', u')"
    using that run_loop_index_seen by blast
  show "process_items_index E items Q u
            = process_items_index E (filter (\<lambda>t. item_id t \<noteq> Some i) items) Q u"
    if "seen_has (seen Q) i"
    using that by (rule process_items_index_ignores_seen)
qed

theorem seen_before_detail_fetch_witness:
  "is_primitive (JStr (lit ''f1'')) \<and> item_id item_f1 = Some (JStr (lit ''f1''))
   \<and> truthy (Some (JStr (lit ''f1''))) \<and> \<not> seen_has (seen P0) (JStr (lit ''f1''))
   \<and> getTranscript env_500 (token P0) (RTA_MEETING_ID env_500) (JStr (lit ''f1''))
        (prettyPrintTranscript item_f1 (console_log ([10] @ lit ''NEW transcript fragment:'') st1))
       = (Inl (HttpError (lit ''HTTP 500 Internal Server Error'' @ [10] @ lit ''boom'')),
          \<lparr>n_acquire = 1, n_now = 1, n_fetch = 1,
           trace = [EvLog ([10] @ lit ''NEW transcript fragment:''),
                    EvLog ([8226] @ lit '' id: f1''),
                    EvFetch (detail_url_m1 (lit ''f1'')) (request_options (lit ''token0''))]\<rparr>)
   \<and> process_items env_500 [item_f1, item_f2] P0 st1
       = (Some (HttpError (lit ''HTTP 500 Internal Server Error'' @ [10] @ lit ''boom'')),
          P0\<lparr>seen := seen P0 @ [JStr (lit ''f1'')]\<rparr>,
          \<lparr>n_acquire = 1, n_now = 1, n_fetch = 1,
           trace = [EvLog ([10] @ lit ''NEW transcript fragment:''),
                    EvLog ([8226] @ lit '' id: f1''),
                    EvFetch (detail_url_m1 (lit ''f1'')) (request_options (lit ''token0''))]\<rparr>)
   \<and> process_items env_500 [item_f1, item_f2] (P0\<lparr>seen := seen P0 @ [JStr (lit ''f1'')]\<rparr>) st1
       = process_items env_500 (filter (\<lambda>t. item_id t \<noteq> Some (JStr (lit ''f1''))) [item_f1, item_f2])
           (P0\<lparr>seen := seen P0 @ [JStr (lit ''f1'')]\<rparr>) st1"
proof -
  note ev = run_eval env_eval item_f1_def item_f2_def detail_url_m1_def lit_def digits_eval
  have h1: "is_primitive (JStr (lit ''f1''))" by simp
  have h2: "item_id item_f1 = Some (JStr (lit ''f1''))" by (simp add: ev)
  have h3: "truthy (Some (JStr (lit ''f1'')))" by (simp add: lit_def)
  have h4: "\<not> seen_has (seen P0) (JStr (lit ''f1''))" by (simp add: ev)
  have g: "getTranscript env_500 (token P0) (RTA_MEETING_ID env_500) (JStr (lit ''f1''))
        (prettyPrintTranscript item_f1 (console_log ([10] @ lit ''NEW transcript fragment:'') st1))
       = (Inl (HttpError (lit ''HTTP 500 Internal Server Error'' @ [10] @ lit ''boom'')),
          \<lparr>n_acquire = 1, n_now = 1, n_fetch = 1,
           trace = [EvLog ([10] @ lit ''NEW transcript fragment:''),
                    EvLog ([8226] @ lit '' id: f1''),
                    EvFetch (detail_url_m1 (lit ''f1'')) (request_options (lit ''token0''))]\<rparr>)"
    by (simp add: ev)
  have s: "seen_has (seen (P0\<lparr>seen := seen P0 @ [JStr (lit ''f1'')]\<rparr>)) (JStr (lit ''f1''))"
    by (simp add: seen_has_def)
  note inst = seen_before_detail_fetch[OF h1 h2 h3 h4, where E = env_500 and s = st1
      and ts = "[item_f2]" and Q = "P0\<lparr>seen := seen P0 @ [JStr (lit ''f1'')]\<rparr>" and u = st1
      and items = "[item_f1, item_f2]"]
  have r1: "process_items env_500 [item_f1, item_f2] P0 st1
       = (Some (HttpError (lit ''HTTP 500 Internal Server Error'' @ [10] @ lit ''boom'')),
          P0\<lparr>seen := seen P0 @ [JStr (lit ''f1'')]\<rparr>,
          \<lparr>n_acquire = 1, n_now = 1, n_fetch = 1,
           trace = [EvLog ([10] @ lit ''NEW transcript fragment:''),
                    EvLog ([8226] @ lit '' id: f1''),
                    EvFetch (detail_url_m1 (lit ''f1'')) (request_options (lit ''token0''))]\<rparr>)"
    using inst g by blast
  have r2: "process_items env_500 [item_f1, item_f2] (P0\<lparr>seen := seen P0 @ [JStr (lit ''f1'')]\<rparr>) st1
       = process_items env_500 (filter (\<lambda>t. item_id t \<noteq> Some (JStr (lit ''f1''))) [item_f1, item_f2])
           (P0\<lparr>seen := seen P0 @ [JStr (lit ''f1'')]\<rparr>) st1"
    using inst s by blast
  show ?thesis using h1 h2 h3 h4 g r1 r2 by (intro conjI)
qed

text \<open>
  C1, in the script with \<open>safeJson\<close>. The list has the fragments \<open>f1\<close> and \<open>f2\<close> and the detail
  request for \<open>f1\<close> is answered 500. The error is not caught at the fragment: it leaves the
  loop over the items, the \<open>catch\<close> block of the pass logs it, and the pass ends with its
  sleep, without a line or a request for \<open>f2\<close>.
\<close>

theorem run_detail_error_ends_pass:
  "run (Suc 0) env_two st0
     = (Inr \<lparr>token = lit ''token0'', tokenAcquiredAt = 0, seen = [JStr (lit ''f1'')]\<rparr>,
        \<lparr>n_acquire = 1, n_now = 2, n_fetch = 2,
         trace = [EvLog (lit ''== Microsoft Graph RTA Transcript Poller ==''),
                  EvLog (lit ''Meeting: m1''),
                  EvLog (lit ''Interval: 2000 ms''),
                  EvAcquire,
                  EvFetch list_url_m1 (request_options (lit ''token0'')),
                  EvLog ([10] @ lit ''NEW transcript fragment:''),
                  EvLog ([8226] @ lit '' id: f1''),
                  EvFetch (detail_url_m1 (lit ''f1'')) (request_options (lit ''token0'')),
                  EvWarn (lit ''Poll error: HTTP 500 Internal Server Error'' @ [10] @ lit ''boom''),
                  EvSleep (Some 2000)]\<rparr>)"
  by (simp add: run_eval env_eval list_url_m1_def detail_url_m1_def lit_def digits_eval)


end
